theory Spec2Isabelle
  imports Main
begin

section \<open>JavaScript strings\<close>

text \<open>
  A JavaScript string is a sequence of UTF-16 code units. The strings of this development
  are HOL strings; a \<^typ>\<open>char\<close> stands for the code unit of the same number, so the
  strings covered are those over U+0000 .. U+00FF, and \<open>length\<close> is the \<open>.length\<close> of
  the source. A value of type \<open>string | undefined\<close> is a \<^typ>\<open>string option\<close>.
\<close>

definition isWhiteSpace :: "char \<Rightarrow> bool" where
  \<comment> \<open>WhiteSpace and LineTerminator of ECMAScript below U+0100: what \<open>trim\<close> removes
      and what \<open>\s\<close> matches.\<close>
  "isWhiteSpace c =
     (let n = (of_char c :: nat)
      in n = 9 \<or> n = 10 \<or> n = 11 \<or> n = 12 \<or> n = 13 \<or> n = 32 \<or> n = 160)"

definition isWordChar :: "char \<Rightarrow> bool" where
  \<comment> \<open>\<open>\w\<close>: the letters A-Z and a-z, the digits and the underscore.\<close>
  "isWordChar c =
     (let n = (of_char c :: nat)
      in (48 \<le> n \<and> n \<le> 57) \<or> (65 \<le> n \<and> n \<le> 90) \<or> n = 95 \<or> (97 \<le> n \<and> n \<le> 122))"

definition isDigit :: "char \<Rightarrow> bool" where
  "isDigit c = (let n = (of_char c :: nat) in 48 \<le> n \<and> n \<le> 57)"

definition trim :: "string \<Rightarrow> string" where
  \<comment> \<open>\<open>String.prototype.trim\<close>\<close>
  "trim s = rev (dropWhile isWhiteSpace (rev (dropWhile isWhiteSpace s)))"

definition upperCodeUnits :: "char \<Rightarrow> nat list" where
  \<comment> \<open>The upper-case mapping of one code unit below U+0100, as code units: the micro
      sign and y with diaeresis leave the range, the sharp s becomes two letters.\<close>
  "upperCodeUnits c =
     (let n = (of_char c :: nat)
      in if 97 \<le> n \<and> n \<le> 122 then [n - 32]
         else if n = 181 then [924]
         else if n = 223 then [83, 83]
         else if 224 \<le> n \<and> n \<le> 254 \<and> n \<noteq> 247 then [n - 32]
         else if n = 255 then [376]
         else [n])"

definition toUpperCase :: "string \<Rightarrow> nat list" where
  \<comment> \<open>\<open>String.prototype.toUpperCase\<close>; the result is a list of code units.\<close>
  "toUpperCase s = concat (map upperCodeUnits s)"

definition startsWith :: "nat list \<Rightarrow> string \<Rightarrow> bool" where
  \<comment> \<open>\<open>String.prototype.startsWith\<close> with a literal search string\<close>
  "startsWith s p = (take (length p) s = map of_char p)"

definition truthy_str :: "string option \<Rightarrow> string option" where
  \<comment> \<open>The test \<open>'f' in params && params.f\<close> on a field of type \<open>string | undefined\<close>:
      the field's value when it is a non-empty string.\<close>
  "truthy_str v = (case v of None \<Rightarrow> None | Some s \<Rightarrow> if s = [] then None else Some s)"

section \<open>The regular expressions of the query analyzer\<close>

text \<open>
  The four patterns of \<open>#parseTableFromQuery\<close> use a word boundary, pattern
  characters, the classes \<open>\s\<close>, \<open>[`"]\<close> and \<open>[\w.]\<close>, the greedy quantifiers \<open>?\<close>
  and \<open>+\<close> on a single character or class, and one capture group. They are run by a
  backtracking matcher as ECMAScript specifies it: a greedy quantifier takes the
  longer alternative first and falls back when the rest of the pattern fails, and
  \<open>String.prototype.match\<close> tries the start positions from left to right. All four
  carry the flag \<open>i\<close> and not the flag \<open>u\<close>.
\<close>

datatype atom =
    Ch char      \<comment> \<open>a pattern character\<close>
  | Space        \<comment> \<open>\<open>\s\<close>\<close>
  | Quote        \<comment> \<open>the class of the backtick and the double quote\<close>
  | WordDot      \<comment> \<open>\<open>[\w.]\<close>\<close>

datatype node =
    Boundary     \<comment> \<open>\<open>\b\<close>\<close>
  | One atom
  | Opt atom     \<comment> \<open>\<open>a?\<close>\<close>
  | Plus atom    \<comment> \<open>\<open>a+\<close>\<close>
  | Star atom    \<comment> \<open>\<open>a*\<close>: what is left of \<open>a+\<close> after its first character\<close>
  | GroupOpen    \<comment> \<open>the opening parenthesis of group 1\<close>
  | GroupClose

definition canonicalize :: "char \<Rightarrow> nat" where
  \<comment> \<open>Canonicalize of ECMAScript for the flag \<open>i\<close> without \<open>u\<close>: the upper-case
      mapping when it is one code unit, except that a code unit from U+0080 on is never
      mapped below U+0080.\<close>
  "canonicalize c =
     (let n = (of_char c :: nat)
      in case upperCodeUnits c of
           [u] \<Rightarrow> if 128 \<le> n \<and> u < 128 then n else u
         | _ \<Rightarrow> n)"

fun atom_matches :: "atom \<Rightarrow> char \<Rightarrow> bool" where
  "atom_matches (Ch p) c = (canonicalize c = canonicalize p)"
| "atom_matches Space c = isWhiteSpace c"
| "atom_matches Quote c = (c = CHR 0x60 \<or> c = CHR 0x22)"
| "atom_matches WordDot c = (isWordChar c \<or> c = CHR ''.'')"

text \<open>
  The three classes hold no character that has another case outside the class, and
  canonicalization never maps a code unit from U+0080 on to one below, so the flag
  \<open>i\<close> changes nothing for them.
\<close>

definition isWordAt :: "char option \<Rightarrow> bool" where
  \<comment> \<open>IsWordChar at a position: false outside the input\<close>
  "isWordAt x = (case x of None \<Rightarrow> False | Some c \<Rightarrow> isWordChar c)"

definition capture :: "bool \<Rightarrow> string \<Rightarrow> char \<Rightarrow> string" where
  \<comment> \<open>The text of group 1 after one more character is consumed.\<close>
  "capture grp cap c = (if grp then cap @ [c] else cap)"

text \<open>
  \<open>matchNodes ns prev s grp cap\<close> matches the nodes \<open>ns\<close> at the head of \<open>s\<close>, where
  \<open>prev\<close> is the character before \<open>s\<close>, \<open>grp\<close> says that group 1 is open and \<open>cap\<close>
  is what it has captured. The result is the text of group 1, or \<open>None\<close> for failure.
\<close>

fun matchNodes :: "node list \<Rightarrow> char option \<Rightarrow> string \<Rightarrow> bool \<Rightarrow> string \<Rightarrow> string option" where
  "matchNodes [] prev s grp cap = Some cap"
| "matchNodes (Boundary # ns) prev s grp cap =
     (if isWordAt prev \<noteq> isWordAt (case s of [] \<Rightarrow> None | c # _ \<Rightarrow> Some c)
      then matchNodes ns prev s grp cap else None)"
| "matchNodes (GroupOpen # ns) prev s grp cap = matchNodes ns prev s True []"
| "matchNodes (GroupClose # ns) prev s grp cap = matchNodes ns prev s False cap"
| "matchNodes (One a # ns) prev [] grp cap = None"
| "matchNodes (One a # ns) prev (c # cs) grp cap =
     (if atom_matches a c then matchNodes ns (Some c) cs grp (capture grp cap c) else None)"
| "matchNodes (Opt a # ns) prev [] grp cap = matchNodes ns prev [] grp cap"
| "matchNodes (Opt a # ns) prev (c # cs) grp cap =
     (if atom_matches a c
      then (case matchNodes ns (Some c) cs grp (capture grp cap c) of
              Some r \<Rightarrow> Some r
            | None \<Rightarrow> matchNodes ns prev (c # cs) grp cap)
      else matchNodes ns prev (c # cs) grp cap)"
| "matchNodes (Plus a # ns) prev [] grp cap = None"
| "matchNodes (Plus a # ns) prev (c # cs) grp cap =
     (if atom_matches a c
      then matchNodes (Star a # ns) (Some c) cs grp (capture grp cap c) else None)"
| "matchNodes (Star a # ns) prev [] grp cap = matchNodes ns prev [] grp cap"
| "matchNodes (Star a # ns) prev (c # cs) grp cap =
     (if atom_matches a c
      then (case matchNodes (Star a # ns) (Some c) cs grp (capture grp cap c) of
              Some r \<Rightarrow> Some r
            | None \<Rightarrow> matchNodes ns prev (c # cs) grp cap)
      else matchNodes ns prev (c # cs) grp cap)"

fun searchFrom :: "node list \<Rightarrow> char option \<Rightarrow> string \<Rightarrow> string option" where
  "searchFrom ns prev [] = matchNodes ns prev [] False []"
| "searchFrom ns prev (c # cs) =
     (case matchNodes ns prev (c # cs) False [] of
        Some r \<Rightarrow> Some r
      | None \<Rightarrow> searchFrom ns (Some c) cs)"

definition match_group1 :: "node list \<Rightarrow> string \<Rightarrow> string option" where
  \<comment> \<open>\<open>query.match(re)\<close> for a pattern without the flag \<open>g\<close>: \<open>None\<close> for \<open>null\<close>,
      else element 1 of the match.\<close>
  "match_group1 re q = searchFrom re None q"

definition keyword :: "string \<Rightarrow> node list" where
  "keyword k = map (\<lambda>c. One (Ch c)) k"

definition identifierGroup :: "node list" where
  \<comment> \<open>the group \<open>([`"]?[\w.]+[`"]?)\<close>\<close>
  "identifierGroup = [GroupOpen, Opt Quote, Plus WordDot, Opt Quote, GroupClose]"

definition reFrom :: "node list" where
  "reFrom = Boundary # keyword ''FROM'' @ [Plus Space] @ identifierGroup"

definition reInsertInto :: "node list" where
  "reInsertInto =
     Boundary # keyword ''INSERT'' @ [Plus Space] @ keyword ''INTO'' @ [Plus Space] @ identifierGroup"

definition reUpdate :: "node list" where
  "reUpdate = Boundary # keyword ''UPDATE'' @ [Plus Space] @ identifierGroup"

definition reDeleteFrom :: "node list" where
  "reDeleteFrom =
     Boundary # keyword ''DELETE'' @ [Plus Space] @ keyword ''FROM'' @ [Plus Space] @ identifierGroup"

definition stripQuotes :: "string \<Rightarrow> string" where
  \<comment> \<open>\<open>.replace(/[`"]/g, '')\<close>\<close>
  "stripQuotes s = filter (\<lambda>c. \<not> atom_matches Quote c) s"

section \<open>The query analyzer\<close>

definition parseTableFromQuery :: "string \<Rightarrow> string option" where
  "parseTableFromQuery query =
     (if query = [] then None
      else
        let normalized = toUpperCase (trim query)
        in case match_group1 reFrom query of
             Some g \<Rightarrow> Some (stripQuotes g)
           | None \<Rightarrow>
               (case match_group1 reInsertInto query of
                  Some g \<Rightarrow> Some (stripQuotes g)
                | None \<Rightarrow>
                    (case (if startsWith normalized ''UPDATE''
                           then match_group1 reUpdate query else None) of
                       Some g \<Rightarrow> Some (stripQuotes g)
                     | None \<Rightarrow>
                         (case (if startsWith normalized ''DELETE''
                                then match_group1 reDeleteFrom query else None) of
                            Some g \<Rightarrow> Some (stripQuotes g)
                          | None \<Rightarrow> None))))"

function collapseWhiteSpace :: "string \<Rightarrow> string" where
  \<comment> \<open>\<open>.replace(/\s+/g, ' ')\<close>: every maximal run of white space becomes one space\<close>
  "collapseWhiteSpace [] = []"
| "collapseWhiteSpace (c # cs) =
     (if isWhiteSpace c then CHR '' '' # collapseWhiteSpace (dropWhile isWhiteSpace cs)
      else c # collapseWhiteSpace cs)"
  by pat_completeness auto
termination
  by (relation "measure length") (auto simp: less_Suc_eq_le length_dropWhile_le)

definition normalizeQuery :: "string \<Rightarrow> string" where
  "normalizeQuery query = trim (collapseWhiteSpace query)"

record params =
  query :: "string option"
  query_id :: "string option"
  table :: "string option"

definition extractTableName :: "params option \<Rightarrow> string \<Rightarrow> string option" where
  "extractTableName ps operation =
     (case ps of
        None \<Rightarrow> None
      | Some p \<Rightarrow>
          (case (if operation = ''insert'' then truthy_str (table p) else None) of
             Some t \<Rightarrow> Some (trim t)
           | None \<Rightarrow>
               (case truthy_str (query p) of
                  Some q \<Rightarrow> parseTableFromQuery q
                | None \<Rightarrow> None)))"

definition extractQueryText :: "params option \<Rightarrow> string \<Rightarrow> string" where
  "extractQueryText ps operation =
     (case ps of
        None \<Rightarrow> operation
      | Some p \<Rightarrow>
          (case truthy_str (query p) of
             Some q \<Rightarrow> normalizeQuery q
           | None \<Rightarrow>
               (case truthy_str (table p) of
                  Some t \<Rightarrow> ''INSERT INTO '' @ t
                | None \<Rightarrow> operation)))"

definition spanName :: "string \<Rightarrow> string option \<Rightarrow> string" where
  \<comment> \<open>the template strings of \<open>#createWrapper\<close>; an empty table name is falsy\<close>
  "spanName operation tableName =
     (case truthy_str tableName of
        Some t \<Rightarrow> ''clickhouse.'' @ operation @ '' '' @ t
      | None \<Rightarrow> ''clickhouse.'' @ operation)"

section \<open>Constants and configuration\<close>

definition ATTR_DB_SYSTEM_NAME :: string where "ATTR_DB_SYSTEM_NAME = ''db.system.name''"
definition ATTR_DB_QUERY_TEXT :: string where "ATTR_DB_QUERY_TEXT = ''db.query.text''"
definition ATTR_DB_OPERATION_NAME :: string where "ATTR_DB_OPERATION_NAME = ''db.operation.name''"
definition ATTR_DB_NAMESPACE :: string where "ATTR_DB_NAMESPACE = ''db.namespace''"
definition ATTR_DB_COLLECTION_NAME :: string where "ATTR_DB_COLLECTION_NAME = ''db.collection.name''"
definition ATTR_SERVER_ADDRESS :: string where "ATTR_SERVER_ADDRESS = ''server.address''"
definition ATTR_SERVER_PORT :: string where "ATTR_SERVER_PORT = ''server.port''"
definition ATTR_DB_SYSTEM :: string where "ATTR_DB_SYSTEM = ''db.system''"
definition ATTR_DB_STATEMENT :: string where "ATTR_DB_STATEMENT = ''db.statement''"
definition ATTR_DB_OPERATION :: string where "ATTR_DB_OPERATION = ''db.operation''"
definition ATTR_DB_NAME :: string where "ATTR_DB_NAME = ''db.name''"

text \<open>
  A configuration as \<open>getConfig()\<close> returns it. Every option is optional in
  \<open>ClickHouseInstrumentationConfig\<close>; \<open>None\<close> is \<open>undefined\<close>. Numbers are integers.
\<close>

record config =
  maxQueryLength :: "int option"
  requireParentSpan :: "bool option"
  suppressInternalInstrumentation :: "bool option"

definition DEFAULT_CONFIG :: config where
  "DEFAULT_CONFIG =
     \<lparr>maxQueryLength = Some 2048, requireParentSpan = Some False,
      suppressInternalInstrumentation = Some True\<rparr>"

definition or_default :: "'a option \<Rightarrow> 'a option \<Rightarrow> 'a option" where
  "or_default given dflt = (case given of None \<Rightarrow> dflt | Some v \<Rightarrow> Some v)"

definition construct :: "config \<Rightarrow> config" where
  \<comment> \<open>the constructor: \<open>{...DEFAULT_CONFIG, ...config}\<close>, an option that is not given
      keeping its default\<close>
  "construct c =
     \<lparr>maxQueryLength = or_default (maxQueryLength c) (maxQueryLength DEFAULT_CONFIG),
      requireParentSpan = or_default (requireParentSpan c) (requireParentSpan DEFAULT_CONFIG),
      suppressInternalInstrumentation =
        or_default (suppressInternalInstrumentation c)
          (suppressInternalInstrumentation DEFAULT_CONFIG)\<rparr>"

definition truthy_flag :: "bool option \<Rightarrow> bool" where
  \<comment> \<open>a flag of type \<open>boolean | undefined\<close> in a condition\<close>
  "truthy_flag b = (b = Some True)"

section \<open>The attribute builder\<close>

record url =
  hostname :: string
  port :: string

record connection_params =
  url :: "url option"
  database :: "string option"

record client =
  connectionParams :: "connection_params option"

datatype attr_value = Str string | Num int | NaN

definition digitsValue :: "string \<Rightarrow> int" where
  "digitsValue ds = foldl (\<lambda>acc c. 10 * acc + (of_char c - 48)) 0 ds"

definition parseInt10 :: "string \<Rightarrow> attr_value" where
  \<comment> \<open>\<open>Number.parseInt(s, 10)\<close>: leading white space and a sign are skipped, the
      longest prefix of digits is read, and there is no number without a digit. The
      value is the integer the digits denote, which a JavaScript number holds exactly
      below \<open>2^53\<close>; the port of a URL is at most 65535.\<close>
  "parseInt10 s =
     (let s1 = dropWhile isWhiteSpace s;
          sign = (case s1 of c # _ \<Rightarrow> if c = CHR ''-'' then - 1 else 1 | [] \<Rightarrow> (1 :: int));
          s2 = (case s1 of c # cs \<Rightarrow> if c = CHR ''-'' \<or> c = CHR ''+'' then cs else s1 | [] \<Rightarrow> []);
          ds = takeWhile isDigit s2
      in if ds = [] then NaN else Num (sign * digitsValue ds))"

definition substring0 :: "string \<Rightarrow> int \<Rightarrow> string" where
  \<comment> \<open>\<open>s.substring(0, n)\<close>: a negative end counts as 0\<close>
  "substring0 s n = take (nat n) s"

type_synonym attributes = "string \<rightharpoonup> attr_value"

text \<open>
  \<open>#buildAttributes\<close> fills one object in four steps: the initial object, then three
  \<open>if\<close> statements that each add attributes to it. Each statement is a function from
  the object before it to the object after it.
\<close>

definition initialAttributes :: "string \<Rightarrow> attributes" where
  "initialAttributes operation =
     [ATTR_DB_SYSTEM_NAME \<mapsto> Str ''clickhouse'',
      ATTR_DB_OPERATION_NAME \<mapsto> Str operation,
      ATTR_DB_SYSTEM \<mapsto> Str ''clickhouse'',
      ATTR_DB_OPERATION \<mapsto> Str operation]"

definition addCollection :: "string option \<Rightarrow> attributes \<Rightarrow> attributes" where
  \<comment> \<open>\<open>if (tableName) ...\<close>\<close>
  "addCollection tableName a =
     (case truthy_str tableName of
        Some t \<Rightarrow> a(ATTR_DB_COLLECTION_NAME \<mapsto> Str t)
      | None \<Rightarrow> a)"

definition addQueryText :: "int \<Rightarrow> string \<Rightarrow> attributes \<Rightarrow> attributes" where
  \<comment> \<open>\<open>if (maxQueryLength > 0 && queryText) ...\<close>\<close>
  "addQueryText maxLen queryText a =
     (if maxLen > 0 \<and> queryText \<noteq> [] then
        let truncatedQuery =
              (if int (length queryText) > maxLen
               then substring0 queryText maxLen @ ''...''
               else queryText)
        in a(ATTR_DB_QUERY_TEXT \<mapsto> Str truncatedQuery,
             ATTR_DB_STATEMENT \<mapsto> Str truncatedQuery)
      else a)"

definition addUrl :: "url option \<Rightarrow> attributes \<Rightarrow> attributes" where
  \<comment> \<open>\<open>if (url) ...\<close>\<close>
  "addUrl u a =
     (case u of
        None \<Rightarrow> a
      | Some v \<Rightarrow>
          (let a' = a(ATTR_SERVER_ADDRESS \<mapsto> Str (hostname v))
           in if port v \<noteq> [] then a'(ATTR_SERVER_PORT \<mapsto> parseInt10 (port v)) else a'))"

definition addDatabase :: "string option \<Rightarrow> attributes \<Rightarrow> attributes" where
  \<comment> \<open>\<open>if (client.connectionParams.database) ...\<close>\<close>
  "addDatabase db a =
     (case truthy_str db of
        Some d \<Rightarrow> a(ATTR_DB_NAMESPACE \<mapsto> Str d, ATTR_DB_NAME \<mapsto> Str d)
      | None \<Rightarrow> a)"

definition addConnection :: "client \<Rightarrow> attributes \<Rightarrow> attributes" where
  \<comment> \<open>\<open>if (client.connectionParams) ...\<close>\<close>
  "addConnection cl a =
     (case connectionParams cl of
        None \<Rightarrow> a
      | Some cp \<Rightarrow> addDatabase (database cp) (addUrl (url cp) a))"

definition buildAttributes ::
  "config \<Rightarrow> client \<Rightarrow> string \<Rightarrow> string option \<Rightarrow> string \<Rightarrow> attributes" where
  "buildAttributes cfg cl operation tableName queryText =
     (let maxLen = (case maxQueryLength cfg of None \<Rightarrow> 2048 | Some m \<Rightarrow> m)
      in addConnection cl
           (addQueryText maxLen queryText
              (addCollection tableName (initialAttributes operation))))"

section \<open>Spans, contexts and the wrapped call\<close>

text \<open>
  The tracer, the spans and the active context belong to OpenTelemetry. They are
  modelled by a state: the spans started so far (a span's handle is its index), the
  active context, and a log of the calls the original method has received, each with
  the context that was active while it ran.
\<close>

record error =
  error_id :: nat
  message :: string

datatype span_kind = CLIENT

datatype status_code = UNSET | OK | ERROR

record span =
  span_name :: string
  kind :: span_kind
  attrs :: attributes
  status :: "status_code \<times> string option"
  exceptions :: "error list"
  ended :: bool

record ctx =
  ctx_span :: "nat option"
  tracing_suppressed :: bool

record call =
  call_ctx :: ctx
  call_this :: client
  call_args :: "params option list"

record world =
  spans :: "span list"
  active :: ctx
  calls :: "call list"

definition startSpan :: "string \<Rightarrow> span_kind \<Rightarrow> attributes \<Rightarrow> world \<Rightarrow> nat \<times> world" where
  \<comment> \<open>Modelled from the spec: \<open>tracer.startSpan(name, {kind, attributes})\<close> of the tracer
      API, outside this repository. The span starts with no status and not ended.\<close>
  "startSpan n k a w =
     (length (spans w),
      w\<lparr>spans := spans w @
         [\<lparr>span_name = n, kind = k, attrs = a, status = (UNSET, None), exceptions = [],
           ended = False\<rparr>]\<rparr>)"

definition update_span :: "nat \<Rightarrow> (span \<Rightarrow> span) \<Rightarrow> world \<Rightarrow> world" where
  "update_span h f w =
     (if h < length (spans w) then w\<lparr>spans := (spans w)[h := f (spans w ! h)]\<rparr> else w)"

definition recordException :: "nat \<Rightarrow> error \<Rightarrow> world \<Rightarrow> world" where
  \<comment> \<open>Modelled from the spec: \<open>span.recordException\<close> of the span API.\<close>
  "recordException h e = update_span h (\<lambda>s. s\<lparr>exceptions := exceptions s @ [e]\<rparr>)"

definition setStatus :: "nat \<Rightarrow> status_code \<times> string option \<Rightarrow> world \<Rightarrow> world" where
  \<comment> \<open>Modelled from the spec: \<open>span.setStatus\<close> of the span API.\<close>
  "setStatus h st = update_span h (\<lambda>s. s\<lparr>status := st\<rparr>)"

definition span_end :: "nat \<Rightarrow> world \<Rightarrow> world" where
  \<comment> \<open>Modelled from the spec: \<open>span.end\<close> of the span API.\<close>
  "span_end h = update_span h (\<lambda>s. s\<lparr>ended := True\<rparr>)"

definition getSpan :: "ctx \<Rightarrow> nat option" where
  \<comment> \<open>Modelled from the spec: \<open>trace.getSpan\<close> of the context API.\<close>
  "getSpan c = ctx_span c"

definition setSpan :: "ctx \<Rightarrow> nat \<Rightarrow> ctx" where
  \<comment> \<open>Modelled from the spec: \<open>trace.setSpan\<close> of the context API.\<close>
  "setSpan c h = c\<lparr>ctx_span := Some h\<rparr>"

definition suppressTracing :: "ctx \<Rightarrow> ctx" where
  \<comment> \<open>Modelled from the spec: \<open>suppressTracing\<close> of the suppression mechanism: the
      context, flagged.\<close>
  "suppressTracing c = c\<lparr>tracing_suppressed := True\<rparr>"

definition context_with :: "ctx \<Rightarrow> (world \<Rightarrow> world \<times> 'a) \<Rightarrow> world \<Rightarrow> world \<times> 'a" where
  \<comment> \<open>Modelled from the spec: \<open>context.with(c, fn)\<close> runs \<open>fn\<close> with \<open>c\<close> active and
      restores the context that was active before on every exit, a throw included.\<close>
  "context_with c fn w = (case fn (w\<lparr>active := c\<rparr>) of (w', r) \<Rightarrow> (w'\<lparr>active := active w\<rparr>, r))"

text \<open>
  A call returns a value or throws. A value is a thenable or not; a thenable is
  represented by the way it settles in the end, if it does. The original method is any
  function of the call it receives.
\<close>

datatype settlement = Fulfilled nat | Rejected error | Pending

datatype jsvalue = Plain nat | Thenable settlement

datatype 'a outcome = Returns 'a | Throws error

type_synonym original = "call \<Rightarrow> jsvalue outcome"

definition apply_original ::
  "original \<Rightarrow> client \<Rightarrow> params option list \<Rightarrow> world \<Rightarrow> world \<times> jsvalue outcome" where
  \<comment> \<open>\<open>original.apply(thisArg, args)\<close>\<close>
  "apply_original orig thisArg args w =
     (let c = \<lparr>call_ctx = active w, call_this = thisArg, call_args = args\<rparr>
      in (w\<lparr>calls := calls w @ [c]\<rparr>, orig c))"

definition callOriginalFunction ::
  "config \<Rightarrow> original \<Rightarrow> client \<Rightarrow> params option list \<Rightarrow> world \<Rightarrow> world \<times> jsvalue outcome" where
  "callOriginalFunction cfg orig thisArg args w =
     (if truthy_flag (suppressInternalInstrumentation cfg)
      then context_with (suppressTracing (active w)) (apply_original orig thisArg args) w
      else apply_original orig thisArg args w)"

definition endSpan :: "nat \<Rightarrow> error option \<Rightarrow> world \<Rightarrow> world" where
  "endSpan sp err w =
     span_end sp
       (case err of
          Some e \<Rightarrow> setStatus sp (ERROR, Some (message e)) (recordException sp e w)
        | None \<Rightarrow> setStatus sp (OK, None) w)"

text \<open>
  What the wrapper returns: the value of the original itself, or the promise
  \<open>result.then(onFulfilled, onRejected)\<close> whose two handlers end the span \<open>sp\<close>.
\<close>

datatype wrapped_value = Same jsvalue | Then settlement nat

definition first_arg :: "params option list \<Rightarrow> params option" where
  \<comment> \<open>the parameter \<open>params\<close>: the first argument, \<open>undefined\<close> when there is none\<close>
  "first_arg args = (case args of [] \<Rightarrow> None | a # _ \<Rightarrow> a)"

definition wrapper ::
  "config \<Rightarrow> string \<Rightarrow> original \<Rightarrow> client \<Rightarrow> params option list \<Rightarrow> world
     \<Rightarrow> world \<times> wrapped_value outcome" where
  "wrapper cfg operation orig this args w =
     (let ps = first_arg args;
          parentSpan = getSpan (active w)
      in if truthy_flag (requireParentSpan cfg) \<and> parentSpan = None
         then (case apply_original orig this args w of
                 (w', Returns v) \<Rightarrow> (w', Returns (Same v))
               | (w', Throws e) \<Rightarrow> (w', Throws e))
         else
           (let tableName = extractTableName ps operation;
                queryText = extractQueryText ps operation;
                attributes = buildAttributes cfg this operation tableName queryText
            in case startSpan (spanName operation tableName) CLIENT attributes w of
                 (sp, w1) \<Rightarrow>
                   context_with (setSpan (active w1) sp)
                     (\<lambda>w2. case callOriginalFunction cfg orig this args w2 of
                             (w3, Throws e) \<Rightarrow> (w3, Throws e)
                           | (w3, Returns (Thenable p)) \<Rightarrow> (w3, Returns (Then p sp))
                           | (w3, Returns (Plain v)) \<Rightarrow>
                               (endSpan sp None w3, Returns (Same (Plain v))))
                     w1))"





section \<open>The method interceptor\<close>

text \<open>
  A method of the prototype is the original function or a wrapper around a method,
  with the operation the wrapper was created for.
\<close>

datatype method_impl = Original original | Wrapped string method_impl

type_synonym prototype = "string \<rightharpoonup> method_impl"

definition isWrapped :: "method_impl option \<Rightarrow> bool" where
  \<comment> \<open>Modelled from the spec: \<open>isWrapped\<close> of the instrumentation framework.\<close>
  "isWrapped m = (case m of Some (Wrapped _ _) \<Rightarrow> True | _ \<Rightarrow> False)"

definition wrap_method :: "prototype \<Rightarrow> string \<Rightarrow> string \<Rightarrow> prototype" where
  \<comment> \<open>Modelled from the spec: \<open>_wrap\<close> of the instrumentation framework replaces the
      method by the wrapper around it; there is nothing to wrap where no method is.\<close>
  "wrap_method proto methodName operation =
     (case proto methodName of
        Some m \<Rightarrow> proto(methodName \<mapsto> Wrapped operation m)
      | None \<Rightarrow> proto)"

definition unwrap_method :: "prototype \<Rightarrow> string \<Rightarrow> prototype" where
  \<comment> \<open>Modelled from the spec: \<open>_unwrap\<close> of the instrumentation framework restores the
      method the wrapper was put around, and does nothing to a method that is not wrapped.\<close>
  "unwrap_method proto methodName =
     (case proto methodName of
        Some (Wrapped _ m) \<Rightarrow> proto(methodName \<mapsto> m)
      | _ \<Rightarrow> proto)"

definition wrapMethod :: "prototype \<Rightarrow> string \<Rightarrow> string \<Rightarrow> prototype" where
  "wrapMethod proto methodName operation =
     wrap_method
       (if isWrapped (proto methodName) then unwrap_method proto methodName else proto)
       methodName operation"

fun wrappers :: "method_impl \<Rightarrow> nat" where
  \<comment> \<open>the number of wrappers a call of the method goes through\<close>
  "wrappers (Original f) = 0"
| "wrappers (Wrapped _ m) = Suc (wrappers m)"

section \<open>The table-name extraction in the words of the specification\<close>

text \<open>
  The specification describes the extraction without regular expressions: a phrase is
  one or two keywords and an identifier, separated by white space; the keywords are
  read case-insensitively; an identifier is a token of word characters and dots that
  may be wrapped in backticks or double quotes, which are not part of the result; the
  phrases are tried in a fixed order of priority, two of them only for a query that
  starts with a given word, and the first phrase found in the query gives the table
  name. The definitions of this section follow that description; they are compared with
  \<open>parseTableFromQuery\<close> below. A phrase is looked for from left to right and has to
  start a word.
\<close>

definition asciiLower :: "char \<Rightarrow> nat" where
  "asciiLower c = (let n = (of_char c :: nat) in if 65 \<le> n \<and> n \<le> 90 then n + 32 else n)"

definition same_letter :: "char \<Rightarrow> char \<Rightarrow> bool" where
  \<comment> \<open>equal up to the case of the letters A to Z\<close>
  "same_letter k c = (asciiLower c = asciiLower k)"

definition isDelimiter :: "char \<Rightarrow> bool" where
  "isDelimiter c = (c = CHR 0x60 \<or> c = CHR 0x22)"

definition isTokenChar :: "char \<Rightarrow> bool" where
  "isTokenChar c = (isWordChar c \<or> c = CHR ''.'')"

fun spec_keyword :: "string \<Rightarrow> string \<Rightarrow> string option" where
  \<comment> \<open>the text after the keyword, when the text starts with it in any case\<close>
  "spec_keyword [] s = Some s"
| "spec_keyword (k # ks) [] = None"
| "spec_keyword (k # ks) (c # cs) = (if same_letter k c then spec_keyword ks cs else None)"

definition spec_gap :: "string \<Rightarrow> string option" where
  \<comment> \<open>the text after a run of white space, when the text starts with one\<close>
  "spec_gap s =
     (case s of
        [] \<Rightarrow> None
      | c # cs \<Rightarrow> if isWhiteSpace c then Some (dropWhile isWhiteSpace cs) else None)"

definition spec_identifier :: "string \<Rightarrow> string option" where
  \<comment> \<open>the token of the identifier the text starts with, without delimiters\<close>
  "spec_identifier s =
     (let body = (case s of [] \<Rightarrow> [] | c # cs \<Rightarrow> if isDelimiter c then cs else s);
          token = takeWhile isTokenChar body
      in if token = [] then None else Some token)"

fun spec_phrase :: "string list \<Rightarrow> string \<Rightarrow> string option" where
  "spec_phrase [] s = spec_identifier s"
| "spec_phrase (k # ks) s =
     (case spec_keyword k s of
        None \<Rightarrow> None
      | Some r \<Rightarrow> (case spec_gap r of None \<Rightarrow> None | Some r' \<Rightarrow> spec_phrase ks r'))"

fun spec_find :: "string list \<Rightarrow> char option \<Rightarrow> string \<Rightarrow> string option" where
  \<comment> \<open>the leftmost phrase that does not follow a word character; \<open>prev\<close> is the
      character before the text\<close>
  "spec_find ks prev [] = None"
| "spec_find ks prev (c # cs) =
     (case (if isWordAt prev then None else spec_phrase ks (c # cs)) of
        Some t \<Rightarrow> Some t
      | None \<Rightarrow> spec_find ks (Some c) cs)"

fun first_match :: "(bool \<times> string list) list \<Rightarrow> string \<Rightarrow> string option" where
  \<comment> \<open>the phrases in their order of priority, each with the condition under which it
      is tried\<close>
  "first_match [] q = None"
| "first_match ((enabled, ks) # ps) q =
     (case (if enabled then spec_find ks None q else None) of
        Some t \<Rightarrow> Some t
      | None \<Rightarrow> first_match ps q)"

definition spec_parseTable :: "string \<Rightarrow> string option" where
  "spec_parseTable q =
     first_match
       [(True, [''FROM'']),
        (True, [''INSERT'', ''INTO'']),
        (startsWith (toUpperCase (trim q)) ''UPDATE'', [''UPDATE'']),
        (startsWith (toUpperCase (trim q)) ''DELETE'', [''DELETE'', ''FROM''])]
       q"

text \<open>Two notions for the comparison: the nodes of a phrase, and the letters.\<close>

definition phraseNodes :: "string list \<Rightarrow> node list" where
  "phraseNodes ks = concat (map (\<lambda>k. keyword k @ [Plus Space]) ks) @ identifierGroup"

definition isLetter :: "char \<Rightarrow> bool" where
  "isLetter c =
     (let n = (of_char c :: nat) in (65 \<le> n \<and> n \<le> 90) \<or> (97 \<le> n \<and> n \<le> 122))"

definition closingDelimiter :: "string \<Rightarrow> string" where
  \<comment> \<open>the delimiter the text starts with, if it starts with one\<close>
  "closingDelimiter s = (case s of [] \<Rightarrow> [] | c # _ \<Rightarrow> if isDelimiter c then [c] else [])"

definition rawToken :: "string \<Rightarrow> string \<Rightarrow> string option" where
  \<comment> \<open>what group 1 holds after a token at the head of the text, \<open>cap\<close> being what
      it held before: the token and the delimiter after it\<close>
  "rawToken cap s =
     (case s of
        [] \<Rightarrow> None
      | c # cs \<Rightarrow>
          if isTokenChar c
          then Some (cap @ takeWhile isTokenChar s @ closingDelimiter (dropWhile isTokenChar s))
          else None)"

definition valid_keywords :: "string list \<Rightarrow> bool" where
  \<comment> \<open>every keyword is a non-empty word of letters\<close>
  "valid_keywords ks = list_all (\<lambda>k. k \<noteq> [] \<and> list_all isLetter k) ks"

text \<open>
  The normalized query text in the words of the specification: every run of white space
  is collapsed to one space, and the text is trimmed. So the normalized text is made of
  the words of the query, a word being a maximal run of characters that are not white
  space, with one space between a word and the next, and nothing before the first word
  or after the last.
\<close>

function wordsOf :: "string \<Rightarrow> string list" where
  \<comment> \<open>the maximal runs of characters that are not white space, from left to right\<close>
  "wordsOf [] = []"
| "wordsOf (c # cs) =
     (if isWhiteSpace c then wordsOf cs
      else (c # takeWhile (\<lambda>d. \<not> isWhiteSpace d) cs) #
             wordsOf (dropWhile (\<lambda>d. \<not> isWhiteSpace d) cs))"
  by pat_completeness auto
termination
  by (relation "measure length") (auto simp: less_Suc_eq_le length_dropWhile_le)

fun joinWords :: "string list \<Rightarrow> string" where
  \<comment> \<open>the words with one space between two of them\<close>
  "joinWords [] = []"
| "joinWords [w] = w"
| "joinWords (w # v # r) = w @ CHR '' '' # joinWords (v # r)"

definition spec_normalize :: "string \<Rightarrow> string" where
  "spec_normalize q = joinWords (wordsOf q)"

definition rtrim :: "string \<Rightarrow> string" where
  \<comment> \<open>the text without the white space at its end: the second half of \<open>trim\<close>\<close>
  "rtrim x = rev (dropWhile isWhiteSpace (rev x))"

text \<open>
  Two properties that follow: white space occurs only as single spaces, and not at the
  ends.
\<close>

fun singleSpaced :: "string \<Rightarrow> bool" where
  \<comment> \<open>every white space character is a space, and no two are adjacent\<close>
  "singleSpaced [] = True"
| "singleSpaced [a] = (isWhiteSpace a = (a = CHR '' ''))"
| "singleSpaced (a # b # r) =
     ((isWhiteSpace a = (a = CHR '' '')) \<and> \<not> (isWhiteSpace a \<and> isWhiteSpace b)
      \<and> singleSpaced (b # r))"

definition trimmed :: "string \<Rightarrow> bool" where
  \<comment> \<open>no white space at the start or at the end\<close>
  "trimmed s = (case s of [] \<Rightarrow> True | c # _ \<Rightarrow> \<not> isWhiteSpace c \<and> \<not> isWhiteSpace (last s))"

section \<open>Example inputs\<close>

definition idle_world :: world where
  \<comment> \<open>no span started, no span active, nothing suppressed\<close>
  "idle_world = \<lparr>spans = [], active = \<lparr>ctx_span = None, tracing_suppressed = False\<rparr>, calls = []\<rparr>"

definition plain_client :: client where
  "plain_client = \<lparr>connectionParams = None\<rparr>"

definition local_client :: client where
  "local_client =
     \<lparr>connectionParams = Some
        \<lparr>url = Some \<lparr>hostname = ''ch.local'', port = ''8443''\<rparr>, database = Some ''default''\<rparr>\<rparr>"

definition gated_config :: config where
  "gated_config = construct
     \<lparr>maxQueryLength = None, requireParentSpan = Some True,
      suppressInternalInstrumentation = None\<rparr>"

definition select_params :: params where
  "select_params = \<lparr>query = Some ''SELECT 1 FROM t'', query_id = None, table = None\<rparr>"

definition boom :: error where
  "boom = \<lparr>error_id = 1, message = ''connection refused''\<rparr>"

section \<open>Properties of the attribute builder\<close>

lemmas attr_keys =
  ATTR_DB_SYSTEM_NAME_def ATTR_DB_QUERY_TEXT_def ATTR_DB_OPERATION_NAME_def
  ATTR_DB_NAMESPACE_def ATTR_DB_COLLECTION_NAME_def ATTR_SERVER_ADDRESS_def
  ATTR_SERVER_PORT_def ATTR_DB_SYSTEM_def ATTR_DB_STATEMENT_def ATTR_DB_OPERATION_def
  ATTR_DB_NAME_def

lemma base_attributes_lookup:
  "addCollection tableName (initialAttributes operation) ATTR_DB_QUERY_TEXT = None"
  "addCollection tableName (initialAttributes operation) ATTR_DB_STATEMENT = None"
  "addCollection tableName (initialAttributes operation) ATTR_SERVER_ADDRESS = None"
  "addCollection tableName (initialAttributes operation) ATTR_SERVER_PORT = None"
  "addCollection tableName (initialAttributes operation) ATTR_DB_NAMESPACE = None"
  "addCollection tableName (initialAttributes operation) ATTR_DB_NAME = None"
  by (simp_all add: addCollection_def initialAttributes_def attr_keys split: option.split)

lemma base_attributes_collection:
  "addCollection tableName (initialAttributes operation) ATTR_DB_COLLECTION_NAME =
     map_option Str (truthy_str tableName)"
  by (simp add: addCollection_def initialAttributes_def attr_keys split: option.split)

lemma addQueryText_lookup:
  "addQueryText m q a ATTR_DB_QUERY_TEXT =
     (if 0 < m \<and> q \<noteq> []
      then Some (Str (if int (length q) \<le> m then q else take (nat m) q @ ''...''))
      else a ATTR_DB_QUERY_TEXT)"
  "addQueryText m q a ATTR_DB_STATEMENT =
     (if 0 < m \<and> q \<noteq> []
      then Some (Str (if int (length q) \<le> m then q else take (nat m) q @ ''...''))
      else a ATTR_DB_STATEMENT)"
  "addQueryText m q a ATTR_SERVER_ADDRESS = a ATTR_SERVER_ADDRESS"
  "addQueryText m q a ATTR_SERVER_PORT = a ATTR_SERVER_PORT"
  "addQueryText m q a ATTR_DB_NAMESPACE = a ATTR_DB_NAMESPACE"
  "addQueryText m q a ATTR_DB_NAME = a ATTR_DB_NAME"
  "addQueryText m q a ATTR_DB_COLLECTION_NAME = a ATTR_DB_COLLECTION_NAME"
  by (simp_all add: addQueryText_def substring0_def Let_def attr_keys)

lemma addConnection_lookup:
  "addConnection cl a ATTR_DB_QUERY_TEXT = a ATTR_DB_QUERY_TEXT"
  "addConnection cl a ATTR_DB_STATEMENT = a ATTR_DB_STATEMENT"
  "addConnection cl a ATTR_DB_COLLECTION_NAME = a ATTR_DB_COLLECTION_NAME"
  by (simp_all add: addConnection_def addDatabase_def addUrl_def Let_def attr_keys
        split: option.split)

lemma addConnection_server:
  "addConnection cl a ATTR_SERVER_ADDRESS =
     (case connectionParams cl of
        None \<Rightarrow> a ATTR_SERVER_ADDRESS
      | Some cp \<Rightarrow>
          (case url cp of None \<Rightarrow> a ATTR_SERVER_ADDRESS | Some u \<Rightarrow> Some (Str (hostname u))))"
  "addConnection cl a ATTR_SERVER_PORT =
     (case connectionParams cl of
        None \<Rightarrow> a ATTR_SERVER_PORT
      | Some cp \<Rightarrow>
          (case url cp of
             None \<Rightarrow> a ATTR_SERVER_PORT
           | Some u \<Rightarrow> if port u \<noteq> [] then Some (parseInt10 (port u)) else a ATTR_SERVER_PORT))"
  by (simp_all add: addConnection_def addDatabase_def addUrl_def Let_def attr_keys
        split: option.split)

lemma addConnection_database:
  "addConnection cl a ATTR_DB_NAMESPACE =
     (case connectionParams cl of
        None \<Rightarrow> a ATTR_DB_NAMESPACE
      | Some cp \<Rightarrow>
          (case truthy_str (database cp) of
             None \<Rightarrow> a ATTR_DB_NAMESPACE
           | Some d \<Rightarrow> Some (Str d)))"
  "addConnection cl a ATTR_DB_NAME =
     (case connectionParams cl of
        None \<Rightarrow> a ATTR_DB_NAME
      | Some cp \<Rightarrow>
          (case truthy_str (database cp) of
             None \<Rightarrow> a ATTR_DB_NAME
           | Some d \<Rightarrow> Some (Str d)))"
  by (simp_all add: addConnection_def addDatabase_def addUrl_def Let_def attr_keys
        split: option.split)

lemma collection_attribute:
  "buildAttributes cfg cl operation tableName queryText ATTR_DB_COLLECTION_NAME =
     map_option Str (truthy_str tableName)"
  by (simp add: buildAttributes_def Let_def addConnection_lookup addQueryText_lookup
        base_attributes_collection)

text \<open>
  Claim C5. The attributes \<open>db.query.text\<close> and \<open>db.statement\<close> are present exactly when
  the maximal query length in force (the configured one, 2048 when none is configured) is
  positive and the query text is not empty. Their value is then the query text itself
  when it is no longer than the maximum, and otherwise its first \<open>maxQueryLength\<close>
  characters followed by three dots. In particular nothing is set when the maximum is 0.
  Both attributes always agree.
\<close>

theorem query_text_attributes:
  "buildAttributes cfg cl operation tableName queryText ATTR_DB_QUERY_TEXT =
     (let maxLen = (case maxQueryLength cfg of None \<Rightarrow> 2048 | Some m \<Rightarrow> m)
      in if 0 < maxLen \<and> queryText \<noteq> []
         then Some (Str (if int (length queryText) \<le> maxLen then queryText
                         else take (nat maxLen) queryText @ ''...''))
         else None)
   \<and> buildAttributes cfg cl operation tableName queryText ATTR_DB_STATEMENT =
       buildAttributes cfg cl operation tableName queryText ATTR_DB_QUERY_TEXT"
  by (simp add: buildAttributes_def Let_def addConnection_lookup addQueryText_lookup
        base_attributes_lookup)

lemma truncation_example:
  "buildAttributes (construct \<lparr>maxQueryLength = Some 10, requireParentSpan = None,
       suppressInternalInstrumentation = None\<rparr>) cl ''query'' (Some ''big_table'')
     ''SELECT * FROM big_table WHERE x=1'' ATTR_DB_QUERY_TEXT = Some (Str ''SELECT * F...'')"
  by (simp add: buildAttributes_def Let_def addConnection_lookup addQueryText_lookup
        base_attributes_lookup construct_def or_default_def)

lemma parseInt10_digits:
  assumes "p \<noteq> []" and "list_all isDigit p"
  shows "parseInt10 p = Num (digitsValue p)"
proof -
  obtain c cs where p: "p = c # cs"
    using assms(1) by (cases p) auto
  have d: "isDigit c"
    using assms(2) p by simp
  have nws: "\<not> isWhiteSpace c"
    using d by (auto simp: isDigit_def isWhiteSpace_def Let_def)
  have ns: "c \<noteq> CHR ''-''" "c \<noteq> CHR ''+''"
    using d by (auto simp: isDigit_def)
  have tw: "takeWhile isDigit p = p"
    using assms(2) by (simp add: list_all_iff)
  show ?thesis
    using nws ns tw p by (simp add: parseInt10_def Let_def)
qed

text \<open>
  Claim C8. With connection parameters, \<open>server.address\<close> is the hostname of the URL
  whenever there is a URL; \<open>server.port\<close> is set exactly when the URL has a non-empty
  port, to what \<open>parseInt\<close> reads from it, which for a port written in digits is the
  integer they denote; \<open>db.namespace\<close> and \<open>db.name\<close> are the database name exactly when
  a non-empty database name is configured. Without connection parameters none of the
  four attributes is set.
\<close>

theorem connection_attributes:
  "buildAttributes cfg cl operation tableName queryText ATTR_SERVER_ADDRESS =
     (case connectionParams cl of
        None \<Rightarrow> None
      | Some cp \<Rightarrow> (case url cp of None \<Rightarrow> None | Some u \<Rightarrow> Some (Str (hostname u))))
   \<and> buildAttributes cfg cl operation tableName queryText ATTR_SERVER_PORT =
     (case connectionParams cl of
        None \<Rightarrow> None
      | Some cp \<Rightarrow>
          (case url cp of
             None \<Rightarrow> None
           | Some u \<Rightarrow> if port u \<noteq> [] then Some (parseInt10 (port u)) else None))
   \<and> buildAttributes cfg cl operation tableName queryText ATTR_DB_NAMESPACE =
     (case connectionParams cl of
        None \<Rightarrow> None
      | Some cp \<Rightarrow>
          (case database cp of
             None \<Rightarrow> None
           | Some d \<Rightarrow> if d \<noteq> [] then Some (Str d) else None))
   \<and> buildAttributes cfg cl operation tableName queryText ATTR_DB_NAME =
       buildAttributes cfg cl operation tableName queryText ATTR_DB_NAMESPACE
   \<and> (\<forall>cp u. connectionParams cl = Some cp \<longrightarrow> url cp = Some u \<longrightarrow> port u \<noteq> [] \<longrightarrow>
         list_all isDigit (port u) \<longrightarrow>
         buildAttributes cfg cl operation tableName queryText ATTR_SERVER_PORT =
           Some (Num (digitsValue (port u))))"
  by (simp add: buildAttributes_def Let_def addConnection_server addConnection_database
        addQueryText_lookup base_attributes_lookup truthy_str_def parseInt10_digits
        split: option.split)

theorem connection_attributes_witness:
  "buildAttributes DEFAULT_CONFIG local_client ''query'' None ''SELECT 1'' ATTR_SERVER_ADDRESS =
     Some (Str ''ch.local'')
   \<and> buildAttributes DEFAULT_CONFIG local_client ''query'' None ''SELECT 1'' ATTR_SERVER_PORT =
     Some (Num 8443)
   \<and> buildAttributes DEFAULT_CONFIG local_client ''query'' None ''SELECT 1'' ATTR_DB_NAMESPACE =
     Some (Str ''default'')
   \<and> buildAttributes DEFAULT_CONFIG local_client ''query'' None ''SELECT 1'' ATTR_DB_NAME =
     Some (Str ''default'')"
proof -
  have digits: "list_all isDigit ''8443''"
    by (simp add: isDigit_def)
  have val: "digitsValue ''8443'' = 8443"
    by (simp add: digitsValue_def)
  note c = connection_attributes [of DEFAULT_CONFIG local_client "''query''" None "''SELECT 1''"]
  from c have "\<forall>cp u. connectionParams local_client = Some cp \<longrightarrow> url cp = Some u \<longrightarrow>
      port u \<noteq> [] \<longrightarrow> list_all isDigit (port u) \<longrightarrow>
      buildAttributes DEFAULT_CONFIG local_client ''query'' None ''SELECT 1'' ATTR_SERVER_PORT =
        Some (Num (digitsValue (port u)))"
    by blast
  from this [rule_format,
      of "\<lparr>url = Some \<lparr>hostname = ''ch.local'', port = ''8443''\<rparr>, database = Some ''default''\<rparr>"
         "\<lparr>hostname = ''ch.local'', port = ''8443''\<rparr>"]
  have "buildAttributes DEFAULT_CONFIG local_client ''query'' None ''SELECT 1''
      ATTR_SERVER_PORT = Some (Num 8443)"
    using digits val by (simp add: local_client_def)
  moreover from c have "buildAttributes DEFAULT_CONFIG local_client ''query'' None ''SELECT 1''
      ATTR_SERVER_ADDRESS = Some (Str ''ch.local'')"
    by (simp add: local_client_def)
  moreover from c have "buildAttributes DEFAULT_CONFIG local_client ''query'' None ''SELECT 1''
      ATTR_DB_NAMESPACE = Some (Str ''default'')"
    by (simp add: local_client_def)
  moreover from c have "buildAttributes DEFAULT_CONFIG local_client ''query'' None ''SELECT 1''
      ATTR_DB_NAME = Some (Str ''default'')"
    by (simp add: local_client_def)
  ultimately show ?thesis
    by simp
qed

section \<open>Properties of the derived table name and query text\<close>

text \<open>
  Claim C2, as stated, fails: an insert call whose parameters carry no table but a query
  gets its table name from the query text.
\<close>

theorem insert_falls_back_to_query_text:
  "extractTableName (Some \<lparr>query = Some ''SELECT 1 FROM t'', query_id = None, table = None\<rparr>)
     ''insert'' = Some ''t''
   \<and> extractTableName (Some \<lparr>query = Some ''SELECT 1 FROM u'', query_id = None, table = None\<rparr>)
     ''insert'' = Some ''u''"
  by code_simp

text \<open>
  Claim C2, amended. For every insert call whose parameters carry a non-empty table
  field, the resolved table name is the trimmed value of that field, whatever the query
  field holds; the span name and the attribute \<open>db.collection.name\<close> are made from the
  trimmed value alone, and a table name that is empty after trimming gives the span name
  without a table and no attribute.
\<close>

theorem insert_table_name:
  assumes "table p = Some t" and "t \<noteq> []"
  shows "extractTableName (Some p) ''insert'' = Some (trim t)
    \<and> extractTableName (Some (p\<lparr>query := q\<rparr>)) ''insert'' = Some (trim t)
    \<and> spanName ''insert'' (extractTableName (Some p) ''insert'') =
        (if trim t = [] then ''clickhouse.insert'' else ''clickhouse.insert '' @ trim t)
    \<and> buildAttributes cfg cl ''insert'' (extractTableName (Some p) ''insert'') queryText
          ATTR_DB_COLLECTION_NAME =
        (if trim t = [] then None else Some (Str (trim t)))"
  using assms
  by (simp add: extractTableName_def truthy_str_def spanName_def collection_attribute)

theorem insert_table_name_witness:
  "extractTableName
     (Some \<lparr>query = Some ''SELECT 1 FROM t'', query_id = None, table = Some '' events ''\<rparr>)
     ''insert'' = Some ''events''
   \<and> spanName ''insert''
       (extractTableName
          (Some \<lparr>query = Some ''SELECT 1 FROM t'', query_id = None, table = Some '' events ''\<rparr>)
          ''insert'') = ''clickhouse.insert events''"
proof -
  have t: "trim '' events '' = ''events''"
    by (simp add: trim_def isWhiteSpace_def)
  show ?thesis
    using insert_table_name
      [of "\<lparr>query = Some ''SELECT 1 FROM t'', query_id = None, table = Some '' events ''\<rparr>"
          "'' events ''" "Some ''SELECT 1 FROM t''" DEFAULT_CONFIG plain_client "''q''"]
    by (auto simp: t)
qed

lemma space_is_white: "isWhiteSpace CHR '' ''"
  by (simp add: isWhiteSpace_def)

lemma filter_dropWhile_not: "filter (\<lambda>c. \<not> P c) (dropWhile P xs) = filter (\<lambda>c. \<not> P c) xs"
  by (induction xs) auto

lemma collapse_content:
  "filter (\<lambda>c. \<not> isWhiteSpace c) (collapseWhiteSpace s) = filter (\<lambda>c. \<not> isWhiteSpace c) s"
  by (induction s rule: collapseWhiteSpace.induct)
    (simp_all add: space_is_white filter_dropWhile_not)

lemma collapse_head:
  "collapseWhiteSpace s = c # r \<Longrightarrow> isWhiteSpace c \<Longrightarrow> s \<noteq> [] \<and> isWhiteSpace (hd s)"
  by (cases s) (auto split: if_splits simp: space_is_white)

lemma dropWhile_head: "dropWhile P xs = c # r \<Longrightarrow> \<not> P c"
  using hd_dropWhile [of P xs] by auto

lemma collapse_singleSpaced: "singleSpaced (collapseWhiteSpace s)"
proof (induction s rule: collapseWhiteSpace.induct)
  case 1
  then show ?case by simp
next
  case (2 c cs)
  show ?case
  proof (cases "isWhiteSpace c")
    case True
    show ?thesis
    proof (cases "collapseWhiteSpace (dropWhile isWhiteSpace cs)")
      case Nil
      then show ?thesis using True by (simp add: space_is_white)
    next
      case (Cons d r)
      have "\<not> isWhiteSpace d"
      proof
        assume "isWhiteSpace d"
        from collapse_head [OF Cons this]
        obtain e t where e: "dropWhile isWhiteSpace cs = e # t" and "isWhiteSpace e"
          by (cases "dropWhile isWhiteSpace cs") auto
        then show False using dropWhile_head [OF e] by simp
      qed
      then show ?thesis
        using True Cons 2(1) by (simp add: space_is_white)
    qed
  next
    case False
    then show ?thesis
      using 2(2) space_is_white by (cases "collapseWhiteSpace cs") auto
  qed
qed

lemma singleSpaced_tl: "singleSpaced (a # s) \<Longrightarrow> singleSpaced s"
  by (cases s) simp_all

lemma singleSpaced_drop: "singleSpaced s \<Longrightarrow> singleSpaced (drop n s)"
proof (induction n arbitrary: s)
  case 0
  then show ?case by simp
next
  case (Suc n)
  then show ?case
    by (cases s) (auto dest: singleSpaced_tl)
qed

lemma singleSpaced_take: "singleSpaced s \<Longrightarrow> singleSpaced (take n s)"
proof (induction s arbitrary: n rule: singleSpaced.induct)
  case 1
  then show ?case by simp
next
  case (2 a)
  then show ?case by (cases n) simp_all
next
  case (3 a b r)
  show ?case
  proof (cases n)
    case 0
    then show ?thesis by simp
  next
    case (Suc m)
    have "singleSpaced (take m (b # r))"
      using 3 by simp
    then show ?thesis
      using 3(2) Suc by (cases m) auto
  qed
qed

lemma trim_take_drop:
  "\<exists>n m. trim s = take m (drop n s)"
proof -
  define t where "t = dropWhile isWhiteSpace s"
  define k where "k = length (takeWhile isWhiteSpace (rev t))"
  have t: "t = drop (length (takeWhile isWhiteSpace s)) s"
    by (simp add: t_def dropWhile_eq_drop)
  have "trim s = rev (dropWhile isWhiteSpace (rev t))"
    by (simp add: trim_def t_def)
  also have "\<dots> = rev (drop k (rev t))"
    by (simp only: dropWhile_eq_drop k_def)
  also have "\<dots> = take (length t - k) t"
    by (simp add: rev_drop)
  finally have "trim s = take (length t - k) (drop (length (takeWhile isWhiteSpace s)) s)"
    using t by simp
  then show ?thesis
    by blast
qed

lemma singleSpaced_trim:
  assumes "singleSpaced s"
  shows "singleSpaced (trim s)"
proof -
  obtain n m where "trim s = take m (drop n s)"
    using trim_take_drop by blast
  then show ?thesis
    using assms by (simp add: singleSpaced_take singleSpaced_drop)
qed

lemma trimmed_trim: "trimmed (trim s)"
proof (cases "trim s")
  case Nil
  then show ?thesis by (simp add: trimmed_def)
next
  case (Cons c r)
  define t where "t = dropWhile isWhiteSpace s"
  define u where "u = dropWhile isWhiteSpace (rev t)"
  have ts: "trim s = rev u"
    by (simp add: trim_def t_def u_def)
  then have u: "u \<noteq> []"
    using Cons by auto
  then have "\<not> isWhiteSpace (hd u)"
    unfolding u_def by (rule hd_dropWhile)
  then have l: "\<not> isWhiteSpace (last (trim s))"
    using u by (simp add: ts last_rev)
  have "rev t = takeWhile isWhiteSpace (rev t) @ u"
    by (simp add: u_def)
  then have "rev (rev t) = rev (takeWhile isWhiteSpace (rev t) @ u)"
    by (rule arg_cong)
  then have e: "t = rev u @ rev (takeWhile isWhiteSpace (rev t))"
    by (simp only: rev_rev_ident rev_append)
  have ne: "t \<noteq> []"
    using e u by auto
  have "hd t = hd (rev u @ rev (takeWhile isWhiteSpace (rev t)))"
    using e by (rule arg_cong)
  then have h: "hd t = hd (rev u)"
    using u by (simp add: hd_append)
  have "\<not> isWhiteSpace (hd t)"
    using ne unfolding t_def by (rule hd_dropWhile)
  then have "\<not> isWhiteSpace c"
    using Cons ts h by simp
  then show ?thesis
    using l Cons by (simp add: trimmed_def)
qed

lemma trim_content:
  "filter (\<lambda>c. \<not> isWhiteSpace c) (trim s) = filter (\<lambda>c. \<not> isWhiteSpace c) s"
proof -
  have "filter (\<lambda>c. \<not> isWhiteSpace c) (trim s) =
      rev (filter (\<lambda>c. \<not> isWhiteSpace c) (dropWhile isWhiteSpace (rev (dropWhile isWhiteSpace s))))"
    by (simp add: trim_def rev_filter)
  also have "\<dots> = rev (filter (\<lambda>c. \<not> isWhiteSpace c) (rev (dropWhile isWhiteSpace s)))"
    by (simp only: filter_dropWhile_not)
  also have "\<dots> = filter (\<lambda>c. \<not> isWhiteSpace c) (dropWhile isWhiteSpace s)"
    by (simp add: rev_filter)
  also have "\<dots> = filter (\<lambda>c. \<not> isWhiteSpace c) s"
    by (simp only: filter_dropWhile_not)
  finally show ?thesis .
qed

lemma normalizeQuery_normal:
  "filter (\<lambda>c. \<not> isWhiteSpace c) (normalizeQuery q) = filter (\<lambda>c. \<not> isWhiteSpace c) q"
  "singleSpaced (normalizeQuery q)"
  "trimmed (normalizeQuery q)"
  by (simp_all add: normalizeQuery_def trim_content collapse_content singleSpaced_trim
        collapse_singleSpaced trimmed_trim)

lemma trim_rtrim: "trim s = rtrim (dropWhile isWhiteSpace s)"
  by (simp add: trim_def rtrim_def)

lemma collapse_word:
  "list_all (\<lambda>d. \<not> isWhiteSpace d) w \<Longrightarrow> collapseWhiteSpace (w @ r) = w @ collapseWhiteSpace r"
  by (induction w) simp_all

lemma collapse_unfold:
  "collapseWhiteSpace r =
     (case r of [] \<Rightarrow> []
      | d # ds \<Rightarrow> if isWhiteSpace d then CHR '' '' # collapseWhiteSpace (dropWhile isWhiteSpace r)
                 else d # collapseWhiteSpace ds)"
  by (cases r) simp_all

lemma collapse_no_lead:
  "(case s of [] \<Rightarrow> True | c # _ \<Rightarrow> \<not> isWhiteSpace c) \<Longrightarrow>
     dropWhile isWhiteSpace (collapseWhiteSpace s) = collapseWhiteSpace s"
  by (cases s) simp_all

lemma dropWhile_no_lead:
  "(case dropWhile P s of [] \<Rightarrow> True | c # _ \<Rightarrow> \<not> P c)"
proof (cases "dropWhile P s")
  case Nil
  show ?thesis
    unfolding Nil by simp
next
  case (Cons c r)
  have "\<not> P c"
    using Cons by (rule dropWhile_head)
  then show ?thesis
    unfolding Cons by simp
qed

lemma dropWhile_collapse:
  "dropWhile isWhiteSpace (collapseWhiteSpace s) = collapseWhiteSpace (dropWhile isWhiteSpace s)"
proof (cases s)
  case Nil
  then show ?thesis by simp
next
  case (Cons c cs)
  show ?thesis
  proof (cases "isWhiteSpace c")
    case True
    have "isWhiteSpace CHR '' ''"
      by (simp add: isWhiteSpace_def)
    then show ?thesis
      using True Cons collapse_no_lead [OF dropWhile_no_lead [of isWhiteSpace cs]] by simp
  next
    case False
    then show ?thesis using Cons by simp
  qed
qed

lemma normalizeQuery_rtrim:
  "normalizeQuery s = rtrim (collapseWhiteSpace (dropWhile isWhiteSpace s))"
  by (simp add: normalizeQuery_def trim_rtrim dropWhile_collapse)

lemma rtrim_word:
  "w \<noteq> [] \<Longrightarrow> list_all (\<lambda>d. \<not> isWhiteSpace d) w \<Longrightarrow> rtrim w = w"
proof -
  assume a: "w \<noteq> []" "list_all (\<lambda>d. \<not> isWhiteSpace d) w"
  then have "\<not> isWhiteSpace (hd (rev w))"
    by (simp add: hd_rev list_all_iff)
  then have "dropWhile isWhiteSpace (rev w) = rev w"
    using a(1) by (cases "rev w") auto
  then show ?thesis by (simp add: rtrim_def)
qed

lemma rtrim_word_space:
  assumes "w \<noteq> []" and "list_all (\<lambda>d. \<not> isWhiteSpace d) w"
  shows "rtrim (w @ CHR '' '' # x) = (if rtrim x = [] then w else w @ CHR '' '' # rtrim x)"
proof -
  have sp: "isWhiteSpace CHR '' ''"
    by (simp add: isWhiteSpace_def)
  have w: "dropWhile isWhiteSpace (rev w) = rev w"
    using rtrim_word [OF assms] by (simp add: rtrim_def) (metis rev_rev_ident)
  show ?thesis
  proof (cases "\<forall>c\<in>set x. isWhiteSpace c")
    case True
    then have "dropWhile isWhiteSpace (rev x) = []"
      by simp
    moreover from True have "dropWhile isWhiteSpace (rev x @ CHR '' '' # rev w) = rev w"
      using sp w by (simp add: dropWhile_append)
    ultimately show ?thesis
      by (simp add: rtrim_def)
  next
    case False
    then have n: "dropWhile isWhiteSpace (rev x) \<noteq> []"
      by simp
    from False have "dropWhile isWhiteSpace (rev x @ CHR '' '' # rev w) =
        dropWhile isWhiteSpace (rev x) @ CHR '' '' # rev w"
      by (auto simp: dropWhile_append)
    then show ?thesis
      using n by (simp add: rtrim_def)
  qed
qed

lemma wordsOf_nonempty: "w \<in> set (wordsOf s) \<Longrightarrow> w \<noteq> []"
  by (induction s rule: wordsOf.induct) (auto split: if_splits)

lemma joinWords_empty: "(joinWords (wordsOf s) = []) = (wordsOf s = [])"
proof (cases "wordsOf s")
  case Nil
  then show ?thesis by simp
next
  case (Cons w r)
  then have "w \<noteq> []"
    using wordsOf_nonempty [of w s] by simp
  then show ?thesis
    using Cons by (cases r) simp_all
qed

lemma joinWords_Cons:
  "joinWords (w # l) = (if l = [] then w else w @ CHR '' '' # joinWords l)"
  by (cases l) simp_all

lemma wordsOf_dropWhile: "wordsOf (dropWhile isWhiteSpace s) = wordsOf s"
  by (induction s) simp_all

lemma normalizeQuery_words: "normalizeQuery s = joinWords (wordsOf s)"
proof (induction s rule: wordsOf.induct)
  case 1
  then show ?case by (simp add: normalizeQuery_rtrim rtrim_def)
next
  case (2 c cs)
  show ?case
  proof (cases "isWhiteSpace c")
    case True
    then show ?thesis
      using 2(1) by (simp add: normalizeQuery_rtrim)
  next
    case False
    define w where "w = c # takeWhile (\<lambda>d. \<not> isWhiteSpace d) cs"
    define r where "r = dropWhile (\<lambda>d. \<not> isWhiteSpace d) cs"
    have w: "w \<noteq> []" "list_all (\<lambda>d. \<not> isWhiteSpace d) w"
      using False by (auto simp: w_def list_all_iff dest: set_takeWhileD)
    have split: "c # cs = w @ r"
      by (simp add: w_def r_def)
    have IH: "normalizeQuery r = joinWords (wordsOf r)"
      using 2(2) False by (simp add: r_def)
    have words: "wordsOf (c # cs) = w # wordsOf r"
      using False by (simp add: w_def r_def)
    have n: "normalizeQuery (c # cs) = rtrim (w @ collapseWhiteSpace r)"
      using False by (simp add: normalizeQuery_rtrim split [symmetric] collapse_word [OF w(2), symmetric]
          del: collapseWhiteSpace.simps)
    show ?thesis
    proof (cases r)
      case Nil
      then show ?thesis
        using n words rtrim_word [OF w] by simp
    next
      case (Cons d ds)
      have "isWhiteSpace d"
        using dropWhile_no_lead [of "\<lambda>d. \<not> isWhiteSpace d" cs] Cons by (simp add: r_def)
      then have "collapseWhiteSpace r =
          CHR '' '' # collapseWhiteSpace (dropWhile isWhiteSpace r)"
        using Cons by (subst collapse_unfold) simp
      then have "normalizeQuery (c # cs) =
          (if normalizeQuery r = [] then w else w @ CHR '' '' # normalizeQuery r)"
        using n by (simp add: rtrim_word_space [OF w] normalizeQuery_rtrim)
      then show ?thesis
        by (simp add: words IH joinWords_Cons joinWords_empty del: wordsOf.simps)
    qed
  qed
qed

text \<open>
  Claim C10, as stated, fails: for parameters with an empty query and no table the query
  text is the operation name, not the normalized query.
\<close>

theorem query_text_not_normalized_query:
  "extractQueryText (Some \<lparr>query = Some [], query_id = None, table = None\<rparr>) ''command''
     \<noteq> normalizeQuery []"
  by (simp add: extractQueryText_def truthy_str_def normalizeQuery_def trim_def)

text \<open>
  Claim C10, amended. The query text is the operation name when the call has no
  parameters, and also when the parameters hold neither a non-empty query nor a
  non-empty table; it is \<open>INSERT INTO\<close> and the table value when there is a non-empty
  table and no non-empty query; it is the normalized query when there is a non-empty
  query. The normalized query is the query with every run of white space collapsed to
  one space and then trimmed: it is the words of the query, in their order, with exactly
  one space between a word and the next and nothing at the ends. In particular it has
  the characters of the query that are not white space, in their order, with white
  space only as single spaces and none at the ends. So \<open>db.query.text\<close> can be present although the caller gave no query: under the
  default configuration a call without parameters carries its operation name there.
\<close>

theorem query_text_synthesis:
  "extractQueryText None operation = operation
   \<and> (truthy_str (query p) = None \<longrightarrow> truthy_str (table p) = None \<longrightarrow>
        extractQueryText (Some p) operation = operation)
   \<and> (truthy_str (query p) = None \<longrightarrow> table p = Some t \<longrightarrow> t \<noteq> [] \<longrightarrow>
        extractQueryText (Some p) operation = ''INSERT INTO '' @ t)
   \<and> (query p = Some q \<longrightarrow> q \<noteq> [] \<longrightarrow>
        extractQueryText (Some p) operation = normalizeQuery q)
   \<and> normalizeQuery q = spec_normalize q
   \<and> filter (\<lambda>c. \<not> isWhiteSpace c) (normalizeQuery q) = filter (\<lambda>c. \<not> isWhiteSpace c) q
   \<and> singleSpaced (normalizeQuery q)
   \<and> trimmed (normalizeQuery q)
   \<and> buildAttributes DEFAULT_CONFIG cl ''query'' None (extractQueryText None ''query'')
        ATTR_DB_QUERY_TEXT = Some (Str ''query'')"
proof -
  have "buildAttributes DEFAULT_CONFIG cl ''query'' None ''query'' ATTR_DB_QUERY_TEXT =
      Some (Str ''query'')"
    by (simp add: buildAttributes_def Let_def addConnection_lookup addQueryText_lookup
          DEFAULT_CONFIG_def)
  moreover have "normalizeQuery q = spec_normalize q"
    by (simp add: normalizeQuery_words spec_normalize_def)
  moreover note normalizeQuery_normal [of q]
  ultimately show ?thesis
    by (simp add: extractQueryText_def truthy_str_def)
qed

theorem query_text_synthesis_witness:
  "extractQueryText (Some \<lparr>query = None, query_id = None, table = Some ''events''\<rparr>) ''insert''
     = ''INSERT INTO events''
   \<and> extractQueryText (Some \<lparr>query = Some [], query_id = None, table = None\<rparr>) ''command''
     = ''command''
   \<and> extractQueryText (Some \<lparr>query = Some ''x'', query_id = None, table = Some ''events''\<rparr>)
       ''insert'' = normalizeQuery ''x''
   \<and> extractQueryText
        (Some \<lparr>query = Some ''  SELECT   1    FROM  t '', query_id = None, table = None\<rparr>)
        ''query'' = ''SELECT 1 FROM t''"
proof -
  have w: "spec_normalize ''  SELECT   1    FROM  t '' = ''SELECT 1 FROM t''"
    by (simp add: spec_normalize_def isWhiteSpace_def)
  have "extractQueryText
        (Some \<lparr>query = Some ''  SELECT   1    FROM  t '', query_id = None, table = None\<rparr>)
        ''query'' = ''SELECT 1 FROM t''"
    using
      query_text_synthesis
        [of "''query''"
            "\<lparr>query = Some ''  SELECT   1    FROM  t '', query_id = None, table = None\<rparr>" _
            "''  SELECT   1    FROM  t ''"]
    by (simp add: w)
  then show ?thesis
    using
      query_text_synthesis
        [of "''insert''" "\<lparr>query = None, query_id = None, table = Some ''events''\<rparr>" "''events''"]
      query_text_synthesis
        [of "''command''" "\<lparr>query = Some [], query_id = None, table = None\<rparr>"]
      query_text_synthesis
        [of "''insert''" "\<lparr>query = Some ''x'', query_id = None, table = Some ''events''\<rparr>" _ "''x''"]
    by (simp add: truthy_str_def)
qed

section \<open>Properties of the wrapped call\<close>

lemma update_span_spans:
  "h < length (spans w) \<Longrightarrow> spans (update_span h f w) = (spans w)[h := f (spans w ! h)]"
  by (simp add: update_span_def)

lemma update_span_other:
  "active (update_span h f w) = active w"
  "calls (update_span h f w) = calls w"
  "length (spans (update_span h f w)) = length (spans w)"
  by (simp_all add: update_span_def)

lemma endSpan_other:
  "active (endSpan h err w) = active w"
  "calls (endSpan h err w) = calls w"
  "length (spans (endSpan h err w)) = length (spans w)"
  by (simp_all add: endSpan_def span_end_def setStatus_def recordException_def update_span_other
        split: option.split)

lemma endSpan_span:
  "h < length (spans w) \<Longrightarrow>
     spans (endSpan h err w) =
       (spans w)[h := (case err of
             None \<Rightarrow> (spans w ! h)\<lparr>status := (OK, None), ended := True\<rparr>
           | Some e \<Rightarrow> (spans w ! h)\<lparr>exceptions := exceptions (spans w ! h) @ [e],
                 status := (ERROR, Some (message e)), ended := True\<rparr>)]"
  by (cases err)
    (simp_all add: endSpan_def span_end_def setStatus_def recordException_def update_span_spans
       update_span_other)

lemma callOriginalFunction_eq:
  "callOriginalFunction cfg orig this args w =
     (let c = \<lparr>call_ctx = (if truthy_flag (suppressInternalInstrumentation cfg)
                             then suppressTracing (active w) else active w),
                call_this = this, call_args = args\<rparr>
      in (w\<lparr>calls := calls w @ [c]\<rparr>, orig c))"
  by (simp add: callOriginalFunction_def context_with_def apply_original_def Let_def)

lemma wrapper_gated:
  assumes "truthy_flag (requireParentSpan cfg)" and "getSpan (active w) = None"
  shows "wrapper cfg operation orig this args w =
     (w\<lparr>calls := calls w @ [\<lparr>call_ctx = active w, call_this = this, call_args = args\<rparr>]\<rparr>,
      case orig \<lparr>call_ctx = active w, call_this = this, call_args = args\<rparr> of
        Returns v \<Rightarrow> Returns (Same v)
      | Throws e \<Rightarrow> Throws e)"
  using assms
  by (simp add: wrapper_def apply_original_def Let_def split: outcome.split)

lemma wrapper_instrumented:
  assumes "\<not> (truthy_flag (requireParentSpan cfg) \<and> getSpan (active w) = None)"
  shows "wrapper cfg operation orig this args w =
     (let ps = first_arg args;
          tableName = extractTableName ps operation;
          a = buildAttributes cfg this operation tableName (extractQueryText ps operation);
          sp = length (spans w);
          s = \<lparr>span_name = spanName operation tableName, kind = CLIENT, attrs = a,
               status = (UNSET, None), exceptions = [], ended = False\<rparr>;
          c = \<lparr>call_ctx = (if truthy_flag (suppressInternalInstrumentation cfg)
                             then suppressTracing (setSpan (active w) sp)
                             else setSpan (active w) sp),
                call_this = this, call_args = args\<rparr>;
          w3 = w\<lparr>spans := spans w @ [s], calls := calls w @ [c]\<rparr>
      in case orig c of
           Throws e \<Rightarrow> (w3, Throws e)
         | Returns (Thenable p) \<Rightarrow> (w3, Returns (Then p sp))
         | Returns (Plain v) \<Rightarrow>
             (w3\<lparr>spans := spans w @ [s\<lparr>status := (OK, None), ended := True\<rparr>]\<rparr>,
              Returns (Same (Plain v))))"
  using assms
  apply (simp add: wrapper_def Let_def startSpan_def context_with_def callOriginalFunction_eq
      split: outcome.split jsvalue.split)
  apply (auto simp: endSpan_span endSpan_other world.equality)
  done

text \<open>
  Claim C1, on the code. When the original method throws on the instrumented path (the
  gate of \<open>requireParentSpan\<close> does not apply), the wrapper throws the same error, and the
  span it started is left as it was started: not ended, without a status, without a
  recorded exception. The claim says the span is ended with status ERROR; the code does
  not do so.
\<close>

theorem synchronous_throw_leaves_span_open:
  assumes "\<not> (truthy_flag (requireParentSpan cfg) \<and> getSpan (active w) = None)"
      and "\<And>c. orig c = Throws e"
  shows "snd (wrapper cfg operation orig this args w) = Throws e
    \<and> length (spans (fst (wrapper cfg operation orig this args w))) = Suc (length (spans w))
    \<and> \<not> ended (spans (fst (wrapper cfg operation orig this args w)) ! length (spans w))
    \<and> status (spans (fst (wrapper cfg operation orig this args w)) ! length (spans w)) =
        (UNSET, None)
    \<and> exceptions (spans (fst (wrapper cfg operation orig this args w)) ! length (spans w)) = []"
  using assms(2) by (simp add: wrapper_instrumented [OF assms(1)] Let_def)

theorem synchronous_throw_leaves_span_open_witness:
  "snd (wrapper DEFAULT_CONFIG ''query'' (\<lambda>c. Throws boom) plain_client [Some select_params]
          idle_world) = Throws boom
   \<and> map ended (spans (fst (wrapper DEFAULT_CONFIG ''query'' (\<lambda>c. Throws boom) plain_client
          [Some select_params] idle_world))) = [False]"
proof -
  have g: "\<not> (truthy_flag (requireParentSpan DEFAULT_CONFIG) \<and> getSpan (active idle_world) = None)"
    by (simp add: DEFAULT_CONFIG_def truthy_flag_def)
  have l: "length (spans idle_world) = 0"
    by (simp add: idle_world_def)
  from synchronous_throw_leaves_span_open
    [of DEFAULT_CONFIG idle_world "\<lambda>c. Throws boom" boom "''query''" plain_client
      "[Some select_params]", OF g]
  show ?thesis
    unfolding l by (auto simp: length_Suc_conv)
qed



text \<open>
  Claim C6. When \<open>requireParentSpan\<close> is set and no span is active, the wrapper starts no
  span: the spans are as before, the active context is as before, the original method
  has received exactly one more call, with the receiver and the arguments of the
  intercepted call, and what it returned or threw is what the wrapper returns or throws.
\<close>

theorem gating_pass_through:
  assumes "truthy_flag (requireParentSpan cfg)" and "getSpan (active w) = None"
  shows "spans (fst (wrapper cfg operation orig this args w)) = spans w
    \<and> active (fst (wrapper cfg operation orig this args w)) = active w
    \<and> calls (fst (wrapper cfg operation orig this args w)) =
        calls w @ [\<lparr>call_ctx = active w, call_this = this, call_args = args\<rparr>]
    \<and> snd (wrapper cfg operation orig this args w) =
        (case orig \<lparr>call_ctx = active w, call_this = this, call_args = args\<rparr> of
           Returns v \<Rightarrow> Returns (Same v)
         | Throws e \<Rightarrow> Throws e)"
  by (simp add: wrapper_gated [OF assms])

theorem gating_pass_through_witness:
  "spans (fst (wrapper gated_config ''query'' (\<lambda>c. Returns (Thenable (Fulfilled 7))) local_client
            [Some select_params] idle_world)) = []
   \<and> snd (wrapper gated_config ''query'' (\<lambda>c. Returns (Thenable (Fulfilled 7))) local_client
            [Some select_params] idle_world) = Returns (Same (Thenable (Fulfilled 7)))"
proof -
  have g: "truthy_flag (requireParentSpan gated_config)" "getSpan (active idle_world) = None"
    by (simp_all add: gated_config_def construct_def or_default_def truthy_flag_def
          idle_world_def getSpan_def)
  have s: "spans idle_world = []"
    by (simp add: idle_world_def)
  from gating_pass_through
    [of gated_config idle_world "''query''" "\<lambda>c. Returns (Thenable (Fulfilled 7))" local_client
      "[Some select_params]", OF g]
  show ?thesis
    unfolding s by simp
qed

text \<open>
  Claim C9. The context in which the original method runs: on the pass-through of the
  gate it is the context that was active at the call, whatever
  \<open>suppressInternalInstrumentation\<close> says; on the instrumented path it is the active
  context with the new span set, and flagged as suppressed exactly when
  \<open>suppressInternalInstrumentation\<close> is set.
\<close>

theorem suppression_scope:
  "(truthy_flag (requireParentSpan cfg) \<and> getSpan (active w) = None \<longrightarrow>
      map call_ctx (calls (fst (wrapper cfg operation orig this args w))) =
        map call_ctx (calls w) @ [active w])
   \<and> (\<not> (truthy_flag (requireParentSpan cfg) \<and> getSpan (active w) = None) \<longrightarrow>
      map call_ctx (calls (fst (wrapper cfg operation orig this args w))) =
        map call_ctx (calls w) @
          [if truthy_flag (suppressInternalInstrumentation cfg)
           then suppressTracing (setSpan (active w) (length (spans w)))
           else setSpan (active w) (length (spans w))])"
proof (intro conjI impI)
  assume g: "truthy_flag (requireParentSpan cfg) \<and> getSpan (active w) = None"
  then show "map call_ctx (calls (fst (wrapper cfg operation orig this args w))) =
        map call_ctx (calls w) @ [active w]"
    by (simp add: wrapper_gated)
next
  assume g: "\<not> (truthy_flag (requireParentSpan cfg) \<and> getSpan (active w) = None)"
  show "map call_ctx (calls (fst (wrapper cfg operation orig this args w))) =
        map call_ctx (calls w) @
          [if truthy_flag (suppressInternalInstrumentation cfg)
           then suppressTracing (setSpan (active w) (length (spans w)))
           else setSpan (active w) (length (spans w))]"
    by (simp add: wrapper_instrumented [OF g] Let_def split: outcome.split jsvalue.split)
qed

theorem suppression_scope_witness:
  "map call_ctx (calls (fst (wrapper gated_config ''query'' (\<lambda>c. Returns (Plain 0)) plain_client
       [] idle_world))) = [\<lparr>ctx_span = None, tracing_suppressed = False\<rparr>]
   \<and> map call_ctx (calls (fst (wrapper DEFAULT_CONFIG ''query'' (\<lambda>c. Returns (Plain 0))
       plain_client [] idle_world))) = [\<lparr>ctx_span = Some 0, tracing_suppressed = True\<rparr>]
   \<and> suppressInternalInstrumentation gated_config = Some True"
proof -
  have g: "truthy_flag (requireParentSpan gated_config) \<and> getSpan (active idle_world) = None"
    by (simp add: gated_config_def construct_def or_default_def truthy_flag_def
          idle_world_def getSpan_def)
  have d: "\<not> (truthy_flag (requireParentSpan DEFAULT_CONFIG) \<and> getSpan (active idle_world) = None)"
    by (simp add: DEFAULT_CONFIG_def truthy_flag_def)
  have s: "truthy_flag (suppressInternalInstrumentation DEFAULT_CONFIG)"
    by (simp add: DEFAULT_CONFIG_def truthy_flag_def)
  have i: "calls idle_world = []" "spans idle_world = []"
    "active idle_world = \<lparr>ctx_span = None, tracing_suppressed = False\<rparr>"
    by (simp_all add: idle_world_def)
  have c: "suppressInternalInstrumentation gated_config = Some True"
    by (simp add: gated_config_def construct_def or_default_def DEFAULT_CONFIG_def)
  from
    suppression_scope [of gated_config idle_world "''query''" "\<lambda>c. Returns (Plain 0)"
      plain_client "[]"]
    suppression_scope [of DEFAULT_CONFIG idle_world "''query''" "\<lambda>c. Returns (Plain 0)"
      plain_client "[]"]
  show ?thesis
    using g d s c by (simp add: i suppressTracing_def setSpan_def)
qed

section \<open>Properties of the method interceptor\<close>

lemma wrapMethod_original:
  "proto n = Some (Original f) \<Longrightarrow>
     wrapMethod proto n operation = proto(n \<mapsto> Wrapped operation (Original f))"
  by (simp add: wrapMethod_def isWrapped_def wrap_method_def)

lemma wrapMethod_wrapped:
  "proto n = Some (Wrapped operation' m) \<Longrightarrow>
     wrapMethod proto n operation = proto(n \<mapsto> Wrapped operation m)"
  by (simp add: wrapMethod_def isWrapped_def wrap_method_def unwrap_method_def)

lemma installs_from_wrapped:
  "proto n = Some (Wrapped operation' m) \<Longrightarrow>
     foldl (\<lambda>p operation. wrapMethod p n operation) proto ops =
       proto(n \<mapsto> Wrapped (last (operation' # ops)) m)"
proof (induction ops arbitrary: proto operation')
  case Nil
  then show ?case by (simp add: fun_upd_idem)
next
  case (Cons a ops)
  have "wrapMethod proto n a n = Some (Wrapped a m)"
    using Cons.prems by (simp add: wrapMethod_wrapped)
  then have "foldl (\<lambda>p operation. wrapMethod p n operation) (wrapMethod proto n a) ops =
      (wrapMethod proto n a)(n \<mapsto> Wrapped (last (a # ops)) m)"
    by (rule Cons.IH [of "wrapMethod proto n a" a])
  then show ?case
    using Cons.prems by (simp add: wrapMethod_wrapped)
qed

text \<open>
  Claim C7. On a prototype whose method is the original function, any number of
  installs, one at least, each for any operation, leaves the method as one wrapper,
  that of the last install, directly around the original function: installing on a
  wrapped method removes the wrapper first. One uninstall then gives back the prototype
  as it was before the first install.
\<close>

theorem install_idempotent:
  assumes "proto methodName = Some (Original f)" and "ops \<noteq> []"
  shows "foldl (\<lambda>p operation. wrapMethod p methodName operation) proto ops =
           proto(methodName \<mapsto> Wrapped (last ops) (Original f))
    \<and> map_option wrappers
        (foldl (\<lambda>p operation. wrapMethod p methodName operation) proto ops methodName) = Some 1
    \<and> unwrap_method (foldl (\<lambda>p operation. wrapMethod p methodName operation) proto ops)
        methodName = proto"
proof -
  obtain a as where ops: "ops = a # as"
    using assms(2) by (cases ops) auto
  have 1: "wrapMethod proto methodName a methodName = Some (Wrapped a (Original f))"
    using assms(1) by (simp add: wrapMethod_original)
  have 2: "foldl (\<lambda>p operation. wrapMethod p methodName operation) proto ops =
           proto(methodName \<mapsto> Wrapped (last ops) (Original f))"
    using installs_from_wrapped [of "wrapMethod proto methodName a" methodName a "Original f" as] 1
      assms(1)
    by (simp add: ops wrapMethod_original)
  show ?thesis
    using assms(1) by (simp add: 2 unwrap_method_def fun_upd_idem)
qed

theorem install_idempotent_witness:
  "map_option wrappers
     (wrapMethod (wrapMethod [''query'' \<mapsto> Original (\<lambda>c. Returns (Plain 0))] ''query'' ''query'')
        ''query'' ''query'' ''query'') = Some 1
   \<and> unwrap_method
       (wrapMethod (wrapMethod [''query'' \<mapsto> Original (\<lambda>c. Returns (Plain 0))] ''query'' ''query'')
          ''query'' ''query'') ''query'' = [''query'' \<mapsto> Original (\<lambda>c. Returns (Plain 0))]"
  using install_idempotent
    [of "[''query'' \<mapsto> Original (\<lambda>c. Returns (Plain 0))]" "''query''" "\<lambda>c. Returns (Plain 0)"
        "[''query'', ''query'']"]
  by auto

section \<open>The query analyzer against the specification\<close>

lemma canonicalize_low:
  "(of_char c :: nat) < 128 \<Longrightarrow>
     canonicalize c =
       (if 97 \<le> (of_char c :: nat) \<and> (of_char c :: nat) \<le> 122 then of_char c - 32 else of_char c)"
  by (simp add: canonicalize_def upperCodeUnits_def Let_def)

lemma canonicalize_high: "128 \<le> (of_char c :: nat) \<Longrightarrow> 128 \<le> canonicalize c"
  by (simp add: canonicalize_def upperCodeUnits_def Let_def)

lemma canonicalize_ascii:
  assumes "(of_char k :: nat) < 128"
  shows "(canonicalize c = canonicalize k) = same_letter k c"
proof (cases "(of_char c :: nat) < 128")
  case True
  show ?thesis
    unfolding canonicalize_low [OF True] canonicalize_low [OF assms] same_letter_def
      asciiLower_def Let_def
    by (simp del: of_char_eq_iff) arith
next
  case False
  then have "128 \<le> canonicalize c"
    by (simp add: canonicalize_high)
  moreover have "canonicalize k < 128"
    using assms by (auto simp: canonicalize_low)
  moreover have "asciiLower k < 128"
    using assms by (simp add: asciiLower_def Let_def)
  moreover have "128 \<le> asciiLower c"
    using False by (simp add: asciiLower_def Let_def)
  ultimately show ?thesis
    by (simp add: same_letter_def)
qed

lemma isLetter_ascii: "isLetter k \<Longrightarrow> (of_char k :: nat) < 128"
  by (auto simp: isLetter_def Let_def)

lemma atom_matches_Ch: "isLetter k \<Longrightarrow> atom_matches (Ch k) c = same_letter k c"
  by (simp add: canonicalize_ascii isLetter_ascii atom_matches.simps)

lemma same_letter_word: "isLetter k \<Longrightarrow> same_letter k c \<Longrightarrow> isWordChar c"
  by (auto simp: isLetter_def same_letter_def asciiLower_def isWordChar_def Let_def split: if_splits)

lemma same_letter_not_space: "isLetter k \<Longrightarrow> same_letter k c \<Longrightarrow> \<not> isWhiteSpace c"
  by (auto simp: isLetter_def same_letter_def asciiLower_def isWhiteSpace_def Let_def split: if_splits)

lemma space_not_token: "isWhiteSpace c \<Longrightarrow> \<not> isTokenChar c"
  by (auto simp: isWhiteSpace_def isTokenChar_def isWordChar_def Let_def)

lemma space_not_delimiter: "isWhiteSpace c \<Longrightarrow> \<not> isDelimiter c"
  by (auto simp: isWhiteSpace_def isDelimiter_def Let_def)

lemma delimiter_not_token: "isDelimiter c \<Longrightarrow> \<not> isTokenChar c"
  by (auto simp: isDelimiter_def isTokenChar_def isWordChar_def Let_def)

lemma atom_matches_classes:
  "atom_matches Quote c = isDelimiter c"
  "atom_matches WordDot c = isTokenChar c"
  "atom_matches Space c = isWhiteSpace c"
  by (simp_all add: isDelimiter_def isTokenChar_def)

declare atom_matches.simps [simp del]


lemma star_token:
  "matchNodes [Star WordDot, Opt Quote, GroupClose] prev s True cap =
     Some (cap @ takeWhile isTokenChar s @ closingDelimiter (dropWhile isTokenChar s))"
  by (induction s arbitrary: prev cap)
    (auto simp: atom_matches_classes capture_def closingDelimiter_def)

lemma plus_token:
  "matchNodes [Plus WordDot, Opt Quote, GroupClose] prev s True cap = rawToken cap s"
  by (cases s) (simp_all add: star_token atom_matches_classes capture_def rawToken_def)

lemma rawToken_not_token: "\<not> isTokenChar c \<Longrightarrow> rawToken cap (c # cs) = None"
  by (simp add: rawToken_def)

lemma identifierGroup_match:
  "matchNodes identifierGroup prev s grp cap =
     (case s of
        [] \<Rightarrow> None
      | c # cs \<Rightarrow> if isDelimiter c then rawToken [c] cs else rawToken [] s)"
proof (cases s)
  case Nil
  then show ?thesis
    by (simp add: identifierGroup_def plus_token rawToken_def del: matchNodes.simps(9,10))
next
  case (Cons c cs)
  show ?thesis
  proof (cases "isDelimiter c")
    case True
    then have "rawToken [] (c # cs) = None"
      by (simp add: rawToken_not_token delimiter_not_token)
    then show ?thesis
      using True Cons
      by (cases "rawToken [c] cs")
        (simp_all add: identifierGroup_def plus_token atom_matches_classes capture_def
           del: matchNodes.simps(9,10))
  next
    case False
    then show ?thesis
      using Cons
      by (simp add: identifierGroup_def plus_token atom_matches_classes
           del: matchNodes.simps(9,10))
  qed
qed

lemma stripQuotes_token:
  "stripQuotes (takeWhile isTokenChar s @ closingDelimiter r) = takeWhile isTokenChar s"
proof -
  have "filter (\<lambda>c. \<not> isDelimiter c) (takeWhile isTokenChar s) = takeWhile isTokenChar s"
    by (rule filter_True) (auto dest: set_takeWhileD delimiter_not_token)
  moreover have "filter (\<lambda>c. \<not> isDelimiter c) (closingDelimiter r) = []"
    by (simp add: closingDelimiter_def split: list.split)
  ultimately show ?thesis
    by (simp add: stripQuotes_def atom_matches_classes)
qed

lemma stripQuotes_rawToken:
  "map_option stripQuotes (rawToken [] s) =
     (if takeWhile isTokenChar s = [] then None else Some (takeWhile isTokenChar s))"
  by (cases s) (simp_all add: rawToken_def stripQuotes_token del: takeWhile.simps(2), simp)

lemma stripQuotes_rawToken_delimiter:
  assumes "isDelimiter c"
  shows "map_option stripQuotes (rawToken [c] s) =
     (if takeWhile isTokenChar s = [] then None else Some (takeWhile isTokenChar s))"
proof -
  have "stripQuotes (c # t) = stripQuotes t" for t
    using assms by (simp add: stripQuotes_def atom_matches_classes)
  then show ?thesis
    by (cases s) (simp_all add: rawToken_def stripQuotes_token del: takeWhile.simps(2), simp)
qed

lemma identifierGroup_spec:
  "map_option stripQuotes (matchNodes identifierGroup prev s grp cap) = spec_identifier s"
proof (cases s)
  case Nil
  then show ?thesis
    by (simp add: identifierGroup_match spec_identifier_def)
next
  case (Cons c cs)
  show ?thesis
  proof (cases "isDelimiter c")
    case True
    have "matchNodes identifierGroup prev s grp cap = rawToken [c] cs"
      using Cons True by (simp add: identifierGroup_match)
    then have "map_option stripQuotes (matchNodes identifierGroup prev s grp cap) =
        (if takeWhile isTokenChar cs = [] then None else Some (takeWhile isTokenChar cs))"
      by (simp only: stripQuotes_rawToken_delimiter [OF True])
    moreover have "spec_identifier s =
        (if takeWhile isTokenChar cs = [] then None else Some (takeWhile isTokenChar cs))"
      using Cons True by (simp add: spec_identifier_def Let_def)
    ultimately show ?thesis
      by (simp only:)
  next
    case False
    have "matchNodes identifierGroup prev s grp cap = rawToken [] s"
      using Cons False by (simp add: identifierGroup_match)
    then have "map_option stripQuotes (matchNodes identifierGroup prev s grp cap) =
        (if takeWhile isTokenChar s = [] then None else Some (takeWhile isTokenChar s))"
      by (simp only: stripQuotes_rawToken)
    moreover have "spec_identifier s =
        (if takeWhile isTokenChar s = [] then None else Some (takeWhile isTokenChar s))"
      using Cons False by (simp add: spec_identifier_def Let_def)
    ultimately show ?thesis
      by (simp only:)
  qed
qed

lemma identifierGroup_rejects_space:
  "isWhiteSpace c \<Longrightarrow> matchNodes identifierGroup prev (c # cs) grp cap = None"
  by (simp add: identifierGroup_match space_not_delimiter space_not_token rawToken_not_token)

lemma star_space:
  assumes rej: "\<And>p c cs. isWhiteSpace c \<Longrightarrow> matchNodes rest p (c # cs) False cap = None"
      and ind: "\<And>p s. matchNodes rest p s False cap = matchNodes rest None s False cap"
  shows "matchNodes (Star Space # rest) prev s False cap =
     matchNodes rest None (dropWhile isWhiteSpace s) False cap"
proof (induction s arbitrary: prev)
  case Nil
  then show ?case by (simp add: ind [of prev])
next
  case (Cons c cs)
  then show ?case
    by (cases "matchNodes rest None (dropWhile isWhiteSpace cs) False cap")
      (auto simp: capture_def rej ind [of prev] atom_matches_classes)
qed

lemma plus_space:
  assumes rej: "\<And>p c cs. isWhiteSpace c \<Longrightarrow> matchNodes rest p (c # cs) False cap = None"
      and ind: "\<And>p s. matchNodes rest p s False cap = matchNodes rest None s False cap"
  shows "matchNodes (Plus Space # rest) prev s False cap =
     (case spec_gap s of None \<Rightarrow> None | Some r \<Rightarrow> matchNodes rest None r False cap)"
  by (cases s)
    (simp_all add: spec_gap_def capture_def star_space [OF rej ind] atom_matches_classes)

lemma keyword_match:
  assumes ind: "\<And>p s. matchNodes rest p s False cap = matchNodes rest None s False cap"
      and "list_all isLetter k"
  shows "matchNodes (keyword k @ rest) prev s False cap =
     (case spec_keyword k s of None \<Rightarrow> None | Some r \<Rightarrow> matchNodes rest None r False cap)"
  using assms(2)
proof (induction k arbitrary: prev s)
  case Nil
  then show ?case by (simp add: keyword_def ind [of prev])
next
  case (Cons a k)
  then have IH: "\<And>prev s. matchNodes (keyword k @ rest) prev s False cap =
     (case spec_keyword k s of None \<Rightarrow> None | Some r \<Rightarrow> matchNodes rest None r False cap)"
    and a: "isLetter a"
    by simp_all
  have kw: "keyword (a # k) @ rest = One (Ch a) # keyword k @ rest"
    by (simp add: keyword_def)
  show ?case
    unfolding kw by (cases s) (simp_all add: IH atom_matches_Ch [OF a] capture_def)
qed

lemma phraseNodes_Cons:
  "phraseNodes (k # ks) = keyword k @ Plus Space # phraseNodes ks"
  by (simp add: phraseNodes_def)

lemma phrase_props:
  assumes "valid_keywords ks"
  shows "(\<forall>p s. matchNodes (phraseNodes ks) p s False [] = matchNodes (phraseNodes ks) None s False [])
    \<and> (\<forall>p c cs. isWhiteSpace c \<longrightarrow> matchNodes (phraseNodes ks) p (c # cs) False [] = None)
    \<and> (\<forall>p s. map_option stripQuotes (matchNodes (phraseNodes ks) p s False []) = spec_phrase ks s)"
  using assms
proof (induction ks)
  case Nil
  have "\<And>p s. matchNodes identifierGroup p s False [] = matchNodes identifierGroup None s False []"
    by (simp add: identifierGroup_match)
  then show ?case
    by (simp add: phraseNodes_def identifierGroup_rejects_space identifierGroup_spec)
next
  case (Cons k ks)
  then have v: "valid_keywords ks" and k: "k \<noteq> []" "list_all isLetter k"
    by (simp_all add: valid_keywords_def)
  from Cons.IH [OF v]
  have ind: "\<And>p s. matchNodes (phraseNodes ks) p s False [] = matchNodes (phraseNodes ks) None s False []"
    and rej: "\<And>p c cs. isWhiteSpace c \<Longrightarrow> matchNodes (phraseNodes ks) p (c # cs) False [] = None"
    and spec: "\<And>p s. map_option stripQuotes (matchNodes (phraseNodes ks) p s False []) = spec_phrase ks s"
    by blast+
  have gap: "\<And>p s. matchNodes (Plus Space # phraseNodes ks) p s False [] =
      (case spec_gap s of None \<Rightarrow> None | Some r \<Rightarrow> matchNodes (phraseNodes ks) None r False [])"
    by (rule plus_space [OF rej ind])
  have eq: "matchNodes (phraseNodes (k # ks)) p s False [] =
      (case spec_keyword k s of
         None \<Rightarrow> None
       | Some r \<Rightarrow>
           (case spec_gap r of
              None \<Rightarrow> None
            | Some r' \<Rightarrow> matchNodes (phraseNodes ks) None r' False []))" for p s
    unfolding phraseNodes_Cons
    by (subst keyword_match [OF _ k(2)]) (simp_all add: gap split: option.split)
  obtain a k' where ak: "k = a # k'" and a: "isLetter a"
    using k by (cases k) auto
  have 1: "\<forall>p s. matchNodes (phraseNodes (k # ks)) p s False [] =
      matchNodes (phraseNodes (k # ks)) None s False []"
    by (simp add: eq)
  have 2: "\<forall>p c cs. isWhiteSpace c \<longrightarrow> matchNodes (phraseNodes (k # ks)) p (c # cs) False [] = None"
  proof (intro allI impI)
    fix p c cs
    assume "isWhiteSpace c"
    then have "\<not> same_letter a c"
      using same_letter_not_space [OF a] by blast
    then have "spec_keyword k (c # cs) = None"
      by (simp add: ak)
    then show "matchNodes (phraseNodes (k # ks)) p (c # cs) False [] = None"
      by (simp add: eq)
  qed
  have 3: "\<forall>p s. map_option stripQuotes (matchNodes (phraseNodes (k # ks)) p s False []) =
      spec_phrase (k # ks) s"
    by (simp add: eq spec split: option.split)
  from 1 2 3 show ?case by blast
qed

lemma phrase_starts_word:
  assumes "valid_keywords ks" and "ks \<noteq> []" and "spec_phrase ks s = Some t"
  shows "isWordAt (case s of [] \<Rightarrow> None | c # _ \<Rightarrow> Some c)"
proof -
  obtain a k' ks' where ks: "ks = (a # k') # ks'" and a: "isLetter a"
    using assms(1,2) by (cases ks; cases "hd ks") (auto simp: valid_keywords_def)
  show ?thesis
    using assms(3) same_letter_word [OF a]
    by (cases s) (auto simp: ks isWordAt_def split: if_splits)
qed

lemma boundary_phrase:
  assumes "valid_keywords ks" and "ks \<noteq> []"
  shows "map_option stripQuotes (matchNodes (Boundary # phraseNodes ks) prev s False []) =
     (if isWordAt prev then None else spec_phrase ks s)"
proof -
  have m: "map_option stripQuotes (matchNodes (phraseNodes ks) prev s False []) = spec_phrase ks s"
    using phrase_props [OF assms(1)] by blast
  show ?thesis
  proof (cases "spec_phrase ks s")
    case None
    with m have "matchNodes (phraseNodes ks) prev s False [] = None"
      by simp
    then show ?thesis
      using None by simp
  next
    case (Some t)
    have "isWordAt (case s of [] \<Rightarrow> None | c # _ \<Rightarrow> Some c)"
      by (rule phrase_starts_word [OF assms Some])
    then show ?thesis
      using m by simp
  qed
qed

lemma search_phrase:
  assumes "valid_keywords ks" and "ks \<noteq> []"
  shows "map_option stripQuotes (searchFrom (Boundary # phraseNodes ks) prev s) =
     spec_find ks prev s"
proof (induction s arbitrary: prev)
  case Nil
  have "spec_phrase ks [] = None"
    using assms by (cases ks; cases "hd ks") (auto simp: valid_keywords_def)
  then show ?case
    unfolding searchFrom.simps boundary_phrase [OF assms] by simp
next
  case (Cons c cs)
  note b = boundary_phrase [OF assms, of prev "c # cs"]
  show ?case
  proof (cases "matchNodes (Boundary # phraseNodes ks) prev (c # cs) False []")
    case None
    with b have e: "(if isWordAt prev then None else spec_phrase ks (c # cs)) = None"
      by simp
    show ?thesis
      unfolding searchFrom.simps spec_find.simps e None by (simp add: Cons.IH)
  next
    case (Some g)
    with b have e: "(if isWordAt prev then None else spec_phrase ks (c # cs)) = Some (stripQuotes g)"
      by simp
    show ?thesis
      unfolding searchFrom.simps spec_find.simps e Some by simp
  qed
qed

lemma patterns:
  "reFrom = Boundary # phraseNodes [''FROM'']"
  "reInsertInto = Boundary # phraseNodes [''INSERT'', ''INTO'']"
  "reUpdate = Boundary # phraseNodes [''UPDATE'']"
  "reDeleteFrom = Boundary # phraseNodes [''DELETE'', ''FROM'']"
  by (simp_all add: reFrom_def reInsertInto_def reUpdate_def reDeleteFrom_def phraseNodes_def)

lemma valid_patterns:
  "valid_keywords [''FROM'']"
  "valid_keywords [''INSERT'', ''INTO'']"
  "valid_keywords [''UPDATE'']"
  "valid_keywords [''DELETE'', ''FROM'']"
  by (simp_all add: valid_keywords_def isLetter_def)

lemma first_some:
  "(case m of Some g \<Rightarrow> Some (stripQuotes g) | None \<Rightarrow> d) =
     (case map_option stripQuotes m of Some t \<Rightarrow> Some t | None \<Rightarrow> d)"
  by (cases m) simp_all

lemma match_group1_phrase:
  "map_option stripQuotes (match_group1 reFrom q) = spec_find [''FROM''] None q"
  "map_option stripQuotes (if g then match_group1 reFrom q else None) =
     (if g then spec_find [''FROM''] None q else None)"
  "map_option stripQuotes (match_group1 reInsertInto q) = spec_find [''INSERT'', ''INTO''] None q"
  "map_option stripQuotes (if g then match_group1 reUpdate q else None) =
     (if g then spec_find [''UPDATE''] None q else None)"
  "map_option stripQuotes (if g then match_group1 reDeleteFrom q else None) =
     (if g then spec_find [''DELETE'', ''FROM''] None q else None)"
  by (simp_all add: match_group1_def patterns search_phrase valid_patterns)

lemma parseTableFromQuery_spec:
  "parseTableFromQuery q = spec_parseTable q"
proof (cases "q = []")
  case True
  then show ?thesis
    by (simp add: parseTableFromQuery_def spec_parseTable_def)
next
  case False
  show ?thesis
    unfolding parseTableFromQuery_def spec_parseTable_def Let_def first_match.simps first_some
      match_group1_phrase if_True
    using False by simp
qed

text \<open>
  Claim C4. For every query, \<open>parseTableFromQuery\<close> returns what the description of
  the specification returns: the phrases FROM identifier, INSERT INTO identifier, UPDATE
  identifier (tried only when the trimmed query in upper case starts with UPDATE) and
  DELETE FROM identifier (tried only when it starts with DELETE) are looked for in this
  order, the keywords in any case; the first phrase that occurs gives the table name,
  which is the token of word characters and dots of its identifier without the
  delimiters around it; when no phrase occurs there is no table name. The function is
  total: no query makes it fail. For an operation other than insert, the table name of
  a call is the one so extracted from the query of its parameters, when they have a
  non-empty query, and none otherwise.
\<close>

theorem table_extraction_priority:
  "parseTableFromQuery q = spec_parseTable q
   \<and> (operation \<noteq> ''insert'' \<longrightarrow>
        extractTableName (Some p) operation =
          (case truthy_str (query p) of None \<Rightarrow> None | Some q' \<Rightarrow> spec_parseTable q'))"
  by (simp add: parseTableFromQuery_spec extractTableName_def split: option.split)

theorem table_extraction_priority_witness:
  "spec_parseTable ''SELECT a FROM `orders` WHERE id=1'' = Some ''orders''
   \<and> spec_parseTable ''OPTIMIZE TABLE x'' = None
   \<and> spec_parseTable ''update t set a = (select b from u)'' = Some ''u''
   \<and> extractTableName
        (Some \<lparr>query = Some ''SELECT a FROM `orders` WHERE id=1'', query_id = None,
               table = None\<rparr>) ''query'' = Some ''orders''"
proof -
  have 1: "parseTableFromQuery ''SELECT a FROM `orders` WHERE id=1'' = Some ''orders''"
    by code_simp
  have 2: "parseTableFromQuery ''OPTIMIZE TABLE x'' = None"
    by code_simp
  have 3: "parseTableFromQuery ''update t set a = (select b from u)'' = Some ''u''"
    by code_simp
  have 4: "''query'' \<noteq> ''insert''"
    by simp
  from table_extraction_priority
    [of "''SELECT a FROM `orders` WHERE id=1''" "''query''"
        "\<lparr>query = Some ''SELECT a FROM `orders` WHERE id=1'', query_id = None, table = None\<rparr>"]
    table_extraction_priority [of "''OPTIMIZE TABLE x''" "''insert''" select_params]
    table_extraction_priority [of "''update t set a = (select b from u)''" "''insert''" select_params]
  show ?thesis
    unfolding 1 2 3 using 4 by (simp add: truthy_str_def)
qed

end
